theory Spec2Isabelle
  imports Main "HOL-Library.Word" "HOL-Library.Signed_Division"
begin

unbundle bit_operations_syntax

section \<open>uid64: a Snowflake-style identifier generator\<close>

text \<open>
  The embedding follows \<^verbatim>\<open>uid64.go\<close>. Go's \<^verbatim>\<open>int64\<close> is a \<open>64 word\<close>; Go's
  \<^verbatim>\<open>int\<close> is taken at its width on 64-bit platforms, a \<open>64 word\<close> too. Shifts and
  additions wrap as they do in Go; comparisons of signed values are the signed ones
  (\<open><s\<close>, \<open>\<le>s\<close>).
\<close>

type_synonym int64 = "64 word"
type_synonym goint = "64 word"

subsection \<open>Constants\<close>

definition unusedBits :: nat where "unusedBits = 1"
definition epochBits :: nat where "epochBits = 41"
definition nodeIDBits :: nat where "nodeIDBits = 10"
definition sequenceBits :: nat where "sequenceBits = 12"

text \<open>\<^verbatim>\<open>int(math.Pow(2, nodeIDBits) - 1)\<close>: the floating-point power is exact at these sizes.\<close>

definition maxNodeID :: goint where "maxNodeID = 2 ^ nodeIDBits - 1"
definition maxSequence :: goint where "maxSequence = 2 ^ sequenceBits - 1"
definition customEpoch :: int64 where "customEpoch = 1420070400000"

subsection \<open>Errors and the generator\<close>

text \<open>
  The two errors of the package, and the error that \<^verbatim>\<open>net.Interfaces\<close> may hand to
  \<^verbatim>\<open>createNodeID\<close>, with its message.
\<close>

datatype error = ErrInvalidState | ErrOutOfBoundNodeID | ErrInterfaces string

text \<open>The mutex serialises the calls; one call is one step of the model.\<close>

record Generator =
  nodeID :: goint
  lastTimestamp :: int64
  sequence :: int64

definition New :: Generator where
  "New = \<lparr>nodeID = 0, lastTimestamp = - 1, sequence = 0\<rparr>"

definition NewWithNodeID :: "goint \<Rightarrow> error + Generator" where
  "NewWithNodeID n =
     (if n <s 0 \<or> maxNodeID <s n then Inl ErrOutOfBoundNodeID
      else Inr \<lparr>nodeID = n, lastTimestamp = - 1, sequence = 0\<rparr>)"

subsection \<open>The host: network interfaces, random numbers, the clock\<close>

text \<open>
  What one call of \<^verbatim>\<open>createNodeID\<close> finds on the host: the outcome of
  \<^verbatim>\<open>net.Interfaces()\<close> (an error, or the hardware address of every interface, in order)
  and the number \<^verbatim>\<open>rand.Int()\<close> would return (non-negative, by its contract).
\<close>

record Host =
  interfaces :: "error + 8 word list list"
  randInt :: goint

text \<open>
  The environment of a generator: the \<open>k\<close>-th reading of \<^verbatim>\<open>time.Now().UnixNano()\<close>
  and the host as the \<open>k\<close>-th call of \<^verbatim>\<open>createNodeID\<close> finds it. The world counts
  the readings and the calls made so far.
\<close>

record Env =
  unixNano :: "nat \<Rightarrow> int64"
  host :: "nat \<Rightarrow> Host"

record World =
  ticks :: nat
  lookups :: nat

text \<open>\<^verbatim>\<open>fmt.Sprintf("%02X", b)\<close>: two upper-case hexadecimal digits.\<close>

definition hexDigit :: "nat \<Rightarrow> char" where
  "hexDigit d = ''0123456789ABCDEF'' ! (d mod 16)"

definition sprintf02X :: "8 word \<Rightarrow> string" where
  "sprintf02X b = [hexDigit (unat b div 16), hexDigit (unat b mod 16)]"

text \<open>\<^verbatim>\<open>fnv.New32a\<close>, \<^verbatim>\<open>Write\<close> and \<^verbatim>\<open>Sum32\<close> of Go's \<^verbatim>\<open>hash/fnv\<close>: 32-bit FNV-1a.\<close>

definition fnv32a :: "8 word list \<Rightarrow> 32 word" where
  "fnv32a bs = foldl (\<lambda>h b. (h XOR ucast b) * 16777619) 2166136261 bs"

definition createNodeID :: "Host \<Rightarrow> goint \<times> error option" where
  "createNodeID h =
     (case interfaces h of
        Inl err \<Rightarrow> (0, Some err)
      | Inr ifaces \<Rightarrow>
          (let sb = concat (map (\<lambda>mac. concat (map sprintf02X mac)) ifaces) in
           if length sb = 0 then (randInt h, None)
           else (ucast (fnv32a (map of_char sb)) AND maxNodeID, None)))"

text \<open>
  \<^verbatim>\<open>timestamp\<close>: Go's \<^verbatim>\<open>/\<close> truncates towards zero, which is \<open>sdiv\<close> on the signed
  value; \<^verbatim>\<open>int64(time.Millisecond)\<close> is 1000000.
\<close>

definition timestamp :: "Env \<Rightarrow> World \<Rightarrow> int64 \<times> World" where
  "timestamp env w =
     (word_of_int (sint (unixNano env (ticks w)) sdiv 1000000) - customEpoch, w\<lparr>ticks := Suc (ticks w)\<rparr>)"

text \<open>
  The polling loop of \<^verbatim>\<open>blockWaitToNextMillisecond\<close>. It has no bound: on a clock that
  stays at \<open>lastTimestamp\<close> it never returns, which is the value \<open>None\<close>.
\<close>

partial_function (option) blockWaitToNextMillisecond ::
  "Env \<Rightarrow> Generator \<Rightarrow> int64 \<Rightarrow> World \<Rightarrow> (int64 \<times> World) option" where
  "blockWaitToNextMillisecond env g currentTimestamp w =
     (if lastTimestamp g = currentTimestamp
      then (case timestamp env w of (t, w') \<Rightarrow> blockWaitToNextMillisecond env g t w')
      else Some (currentTimestamp, w))"

declare blockWaitToNextMillisecond.simps [code]

text \<open>Lines 88 to 90 of \<^verbatim>\<open>NextID\<close>: the three fields or-ed together.\<close>

definition composeID :: "int64 \<Rightarrow> goint \<Rightarrow> int64 \<Rightarrow> int64" where
  "composeID currentTimestamp nid seq =
     (push_bit (nodeIDBits + sequenceBits) currentTimestamp OR push_bit sequenceBits nid) OR seq"

text \<open>
  Lines 64 to 70 of \<^verbatim>\<open>NextID\<close>: a generator whose \<^verbatim>\<open>nodeID\<close> is 0 asks
  \<^verbatim>\<open>createNodeID\<close> and stores the answer; an error ends the call.
\<close>

definition lazyNodeID :: "Env \<Rightarrow> Generator \<Rightarrow> World \<Rightarrow> (error + Generator) \<times> World" where
  "lazyNodeID env g w =
     (if nodeID g = 0
      then (case createNodeID (host env (lookups w)) of
              (nid, Some err) \<Rightarrow> (Inl err, w\<lparr>lookups := Suc (lookups w)\<rparr>)
            | (nid, None) \<Rightarrow> (Inr (g\<lparr>nodeID := nid\<rparr>), w\<lparr>lookups := Suc (lookups w)\<rparr>))
      else (Inr g, w))"

text \<open>
  \<^verbatim>\<open>NextID\<close> returns the pair of Go (identifier, error), the generator and the world
  after the call; \<open>None\<close> when the call never returns.
\<close>

definition NextID ::
  "Env \<Rightarrow> Generator \<Rightarrow> World \<Rightarrow> ((int64 \<times> error option) \<times> Generator \<times> World) option" where
  "NextID env g w =
     (case lazyNodeID env g w of
        (Inl err, w1) \<Rightarrow> Some ((0, Some err), g, w1)
      | (Inr g1, w1) \<Rightarrow>
          (case timestamp env w1 of (currentTimestamp, w2) \<Rightarrow>
             if currentTimestamp <s lastTimestamp g1 then Some ((0, Some ErrInvalidState), g1, w2)
             else
               (case (if currentTimestamp = lastTimestamp g1
                      then (let g2 = g1\<lparr>sequence := (sequence g1 + 1) AND maxSequence\<rparr> in
                            if sequence g2 = 0
                            then map_option (\<lambda>(t, w3). (g2, t, w3))
                                   (blockWaitToNextMillisecond env g2 currentTimestamp w2)
                            else Some (g2, currentTimestamp, w2))
                      else Some (g1\<lparr>sequence := 0\<rparr>, currentTimestamp, w2)) of
                  None \<Rightarrow> None
                | Some (g3, t, w3) \<Rightarrow>
                    (let g4 = g3\<lparr>lastTimestamp := t\<rparr> in
                     Some ((composeID t (nodeID g4) (sequence g4), None), g4, w3)))))"

subsection \<open>Notions the properties are stated with\<close>

text \<open>The \<open>k\<close>-th sample of the clock, as \<^verbatim>\<open>timestamp\<close> computes it.\<close>

definition sample :: "Env \<Rightarrow> nat \<Rightarrow> int64" where
  "sample env k = fst (timestamp env \<lparr>ticks = k, lookups = 0\<rparr>)"

text \<open>\<open>n\<close> calls of \<^verbatim>\<open>NextID\<close> on one generator, one after the other, with what each returned.\<close>

fun run ::
  "Env \<Rightarrow> nat \<Rightarrow> Generator \<Rightarrow> World \<Rightarrow> ((int64 \<times> error option) list \<times> Generator \<times> World) option" where
  "run env 0 g w = Some ([], g, w)"
| "run env (Suc n) g w =
     (case NextID env g w of
        None \<Rightarrow> None
      | Some (r, g1, w1) \<Rightarrow>
          (case run env n g1 w1 of
             None \<Rightarrow> None
           | Some (rs, g2, w2) \<Rightarrow> Some (r # rs, g2, w2)))"

text \<open>The identifiers of the successful calls, in the order of the calls.\<close>

definition issued :: "(int64 \<times> error option) list \<Rightarrow> int64 list" where
  "issued rs = map fst (filter (\<lambda>r. snd r = None) rs)"

text \<open>
  The fields of an identifier, read back with the inverse shifts:
  \<^verbatim>\<open>id >> 22\<close>, \<^verbatim>\<open>(id >> 12) & 1023\<close> and \<^verbatim>\<open>id & 4095\<close>. Go's \<^verbatim>\<open>>>\<close> on an
  \<^verbatim>\<open>int64\<close> keeps the sign, which is \<open>signed_drop_bit\<close>.
\<close>

definition timestampField :: "int64 \<Rightarrow> int64" where
  "timestampField i = signed_drop_bit (nodeIDBits + sequenceBits) i"

definition nodeIDField :: "int64 \<Rightarrow> goint" where
  "nodeIDField i = signed_drop_bit sequenceBits i AND maxNodeID"

definition sequenceField :: "int64 \<Rightarrow> int64" where
  "sequenceField i = i AND maxSequence"

definition decomposeID :: "int64 \<Rightarrow> int64 \<times> goint \<times> int64" where
  "decomposeID i = (timestampField i, nodeIDField i, sequenceField i)"

text \<open>The world before the first call.\<close>

definition world0 :: World where
  "world0 = \<lparr>ticks = 0, lookups = 0\<rparr>"

text \<open>
  The bounds of the data model, \<open>0 \<le> nodeID \<le> 1023\<close> and \<open>0 \<le> sequence \<le> 4095\<close>, on
  the signed values the generator holds.
\<close>

definition inBounds :: "Generator \<Rightarrow> bool" where
  "inBounds g \<longleftrightarrow>
     0 \<le>s nodeID g \<and> nodeID g \<le>s maxNodeID \<and> 0 \<le>s sequence g \<and> sequence g \<le>s maxSequence"

text \<open>
  The same bounds, read unsigned, with the timestamp within \<open>[- 2 ^ 41, 2 ^ 41)\<close>, where
  the shift by 22 does not reach beyond the sign bit.
\<close>

definition wellFormed :: "Generator \<Rightarrow> bool" where
  "wellFormed g \<longleftrightarrow>
     nodeID g \<le> 1023 \<and> sequence g \<le> 4095 \<and>
     - (2 ^ 41) \<le> sint (lastTimestamp g) \<and> sint (lastTimestamp g) < 2 ^ 41"

text \<open>The number an identifier composed from the state of \<open>g\<close> stands for.\<close>

definition rank :: "Generator \<Rightarrow> int" where
  "rank g = sint (lastTimestamp g) * 2 ^ 22 + uint (nodeID g) * 2 ^ 12 + uint (sequence g)"

subsection \<open>Hosts and clocks of the examples\<close>

text \<open>The reading of \<^verbatim>\<open>UnixNano\<close> at the start of millisecond \<open>ms\<close> of the custom epoch.\<close>

definition nanosOf :: "int64 \<Rightarrow> int64" where
  "nanosOf ms = (ms + customEpoch) * 1000000"

definition envOf :: "(nat \<Rightarrow> int64) \<Rightarrow> Host \<Rightarrow> Env" where
  "envOf ms h = \<lparr>unixNano = (\<lambda>k. nanosOf (ms k)), host = (\<lambda>k. h)\<rparr>"

text \<open>A host with one interface, of hardware address 02:42:AC:11:00:02.\<close>

definition wiredHost :: Host where
  "wiredHost = \<lparr>interfaces = Inr [[0x02, 0x42, 0xAC, 0x11, 0x00, 0x02]], randInt = 7\<rparr>"

text \<open>A host with the loopback interface only, which has no hardware address.\<close>

definition bareHost :: Host where
  "bareHost = \<lparr>interfaces = Inr [[]], randInt = 1024\<rparr>"

text \<open>A host on which \<^verbatim>\<open>net.Interfaces\<close> fails.\<close>

definition brokenHost :: Host where
  "brokenHost = \<lparr>interfaces = Inl (ErrInterfaces ''netlinkrib: permission denied''), randInt = 7\<rparr>"

text \<open>A clock that stays in millisecond 5.\<close>

definition clockSteady :: "nat \<Rightarrow> int64" where
  "clockSteady k = 5"

text \<open>A clock that reads millisecond 5 once and millisecond 6 from then on.\<close>

definition clockTicking :: "nat \<Rightarrow> int64" where
  "clockTicking k = (if k = 0 then 5 else 6)"

text \<open>
  A clock that reads the last millisecond of the 41-bit range, \<open>2 ^ 41 - 1\<close>, once and the
  next one, \<open>2 ^ 41\<close>, from then on (September 2084).
\<close>

definition clockRollover :: "nat \<Rightarrow> int64" where
  "clockRollover k = (if k = 0 then 2199023255551 else 2199023255552)"

text \<open>A clock that stays in millisecond 5 for three readings and is in millisecond 6 then.\<close>

definition clockStall :: "nat \<Rightarrow> int64" where
  "clockStall k = (if k < 3 then 5 else 6)"

text \<open>
  A clock that stays in millisecond 5 for 4097 readings and reads millisecond
  \<open>5 + 2 ^ 42\<close> from then on (the year 2154; \<^verbatim>\<open>UnixNano\<close> reaches 2262).
\<close>

definition clockLong :: "nat \<Rightarrow> int64" where
  "clockLong k = (if k \<le> 4096 then 5 else 4398046511109)"

text \<open>A clock that reads millisecond 2 once and millisecond 3 from then on.\<close>

definition clockTwoThree :: "nat \<Rightarrow> int64" where
  "clockTwoThree k = (if k = 0 then 2 else 3)"

section \<open>Basic facts\<close>

lemma maxNodeID_eq: "maxNodeID = 1023"
  by (simp add: maxNodeID_def nodeIDBits_def)

lemma maxSequence_eq: "maxSequence = 4095"
  by (simp add: maxSequence_def sequenceBits_def)

lemma timestamp_sample:
  "timestamp env w = (sample env (ticks w), w\<lparr>ticks := Suc (ticks w)\<rparr>)"
  by (simp add: timestamp_def sample_def)

lemma composeID_mult: "composeID t n s = (t * 2 ^ 22 OR n * 2 ^ 12) OR s"
  by (simp add: composeID_def nodeIDBits_def sequenceBits_def push_bit_eq_mult)

lemma sample_clockSteady: "sample (envOf clockSteady h) k = 5"
  by (simp add: sample_def timestamp_def envOf_def nanosOf_def clockSteady_def customEpoch_def)

lemma createNodeID_error:
  "snd (createNodeID h) = Some err \<longleftrightarrow> interfaces h = Inl err"
  by (auto simp: createNodeID_def Let_def split: sum.splits)

subsection \<open>The fields of a composed identifier\<close>

lemma bit_below: 
  fixes x :: "64 word"
  assumes "x \<le> 2 ^ k - 1" and "k < 64" and "bit x j" shows "j < k"
proof -
  have "uint x \<le> uint (2 ^ k - 1 :: 64 word)" using assms(1) by (simp add: word_le_def)
  also have "(2 ^ k - 1 :: 64 word) = mask k" by (simp add: mask_eq_exp_minus_1)
  also have "uint (mask k :: 64 word) = mask k" using assms(2) by (simp add: uint_mask_eq)
  finally have "uint x < 2 ^ k" by (simp add: mask_eq_exp_minus_1)
  then have "x AND mask k = x" by (simp add: mask_eq_iff)
  then have "take_bit k x = x" by (simp add: take_bit_eq_mask)
  then have "bit (take_bit k x) j" using assms(3) by simp
  then show ?thesis by (simp add: bit_take_bit_iff)
qed

lemma node_bits: "(n :: 64 word) \<le> 1023 \<Longrightarrow> bit n j \<Longrightarrow> j < 10"
  using bit_below [of n 10 j] by simp

lemma seq_bits: "(s :: 64 word) \<le> 4095 \<Longrightarrow> bit s j \<Longrightarrow> j < 12"
  using bit_below [of s 12 j] by simp

lemma composeID_add:
  assumes n: "n \<le> 1023" and s: "s \<le> 4095"
  shows "composeID t n s = t * 2 ^ 22 + n * 2 ^ 12 + s"
proof -
  have d1: "push_bit 22 t AND push_bit 12 n = 0"
    by (rule bit_eqI) (auto simp: bit_simps dest: node_bits [OF n])
  have d2: "(push_bit 22 t + push_bit 12 n) AND s = 0"
    unfolding disjunctive_add_eq_or [OF d1]
    by (rule bit_eqI) (auto simp: bit_simps dest: seq_bits [OF s])
  have "composeID t n s = (push_bit 22 t OR push_bit 12 n) OR s"
    by (simp add: composeID_def nodeIDBits_def sequenceBits_def)
  also have "\<dots> = (push_bit 22 t + push_bit 12 n) + s"
    by (simp only: disjunctive_add_eq_or [OF d1] disjunctive_add_eq_or [OF d2] flip: disjunctive_add_eq_or [OF d1])
  finally show ?thesis by (simp add: push_bit_eq_mult)
qed

lemma sint_composeID:
  assumes n: "n \<le> 1023" and s: "s \<le> 4095" and lo: "- (2 ^ 41) \<le> sint t" and hi: "sint t < 2 ^ 41"
  shows "sint (composeID t n s) = sint t * 2 ^ 22 + uint n * 2 ^ 12 + uint s"
proof -
  have un: "uint n \<le> 1023" using n by (simp add: word_le_def)
  have us: "uint s \<le> 4095" using s by (simp add: word_le_def)
  have n0: "0 \<le> uint n" and s0: "0 \<le> uint s" by simp_all
  let ?v = "sint t * 2 ^ 22 + uint n * 2 ^ 12 + uint s"
  have "composeID t n s = word_of_int (sint t) * 2 ^ 22 + word_of_int (uint n) * 2 ^ 12 + word_of_int (uint s)"
    by (simp add: composeID_add [OF n s])
  also have "\<dots> = word_of_int ?v"
    by (simp only: of_int_add of_int_mult of_int_power of_int_numeral)
  finally have e: "composeID t n s = word_of_int ?v" .
  have "sint (composeID t n s) = signed_take_bit (LENGTH(64) - 1) ?v"
    by (simp only: e sint_sbintrunc')
  then have "sint (composeID t n s) = signed_take_bit 63 ?v" by simp
  moreover have "- (2 ^ 63) \<le> ?v"
  proof -
    have "- 2199023255552 \<le> sint t" using lo by simp
    then have "- 9223372036854775808 \<le> sint t * 4194304 + uint n * 4096 + uint s"
      using uint_ge_0 [of n] uint_ge_0 [of s] by linarith
    then show ?thesis by simp
  qed
  moreover have "?v < 2 ^ 63"
  proof -
    have "sint t < 2199023255552" using hi by simp
    then have "sint t * 4194304 + uint n * 4096 + uint s < 9223372036854775808"
      using un us by linarith
    then show ?thesis by simp
  qed
  ultimately show ?thesis by (simp add: signed_take_bit_int_eq_self)
qed

lemma sequenceField_composeID:
  assumes "s \<le> 4095"
  shows "sequenceField (composeID t n s) = s"
proof -
  have m: "(4095 :: 64 word) = mask 12" by (simp add: mask_eq_exp_minus_1)
  show ?thesis
    unfolding sequenceField_def composeID_def maxSequence_eq nodeIDBits_def sequenceBits_def m
    by (rule bit_eqI) (auto simp: bit_simps dest: seq_bits [OF assms])
qed

lemma nodeIDField_composeID:
  assumes n: "n \<le> 1023" and s: "s \<le> 4095"
  shows "nodeIDField (composeID t n s) = n"
proof -
  have m: "(1023 :: 64 word) = mask 10" by (simp add: mask_eq_exp_minus_1)
  show ?thesis
    unfolding nodeIDField_def composeID_def maxNodeID_eq nodeIDBits_def sequenceBits_def m
    by (rule bit_eqI) (auto simp: bit_simps bit_signed_drop_bit_iff dest: seq_bits [OF s] node_bits [OF n])
qed

lemma timestampField_composeID:
  assumes n: "n \<le> 1023" and s: "s \<le> 4095" and lo: "- (2 ^ 41) \<le> sint t" and hi: "sint t < 2 ^ 41"
  shows "timestampField (composeID t n s) = t"
proof -
  have un: "uint n \<le> 1023" using n by (simp add: word_le_def)
  have us: "uint s \<le> 4095" using s by (simp add: word_le_def)
  have n0: "0 \<le> uint n" and s0: "0 \<le> uint s" by simp_all
  have "sint (timestampField (composeID t n s)) = (sint t * 2 ^ 22 + uint n * 2 ^ 12 + uint s) div 2 ^ 22"
    by (simp add: timestampField_def nodeIDBits_def sequenceBits_def sint_signed_drop_bit_eq
        sint_composeID [OF assms] drop_bit_eq_div)
  also have "\<dots> = sint t"
  proof -
    define r where "r = uint n * 2 ^ 12 + uint s"
    have r: "0 \<le> r" "r < 2 ^ 22" using un us by (simp_all add: r_def)
    have "(r + sint t * 2 ^ 22) div 2 ^ 22 = sint t"
      using r by (simp add: div_pos_pos_trivial)
    then show ?thesis by (simp add: r_def ac_simps)
  qed
  finally show ?thesis by (rule signed_word_eqI)
qed

subsection \<open>The polling loop\<close>

lemma blockWait_differs:
  "cur \<noteq> lastTimestamp g \<Longrightarrow> blockWaitToNextMillisecond env g cur w = Some (cur, w)"
  by (subst blockWaitToNextMillisecond.simps) simp

lemma blockWait_step:
  "blockWaitToNextMillisecond env g (lastTimestamp g) w =
   blockWaitToNextMillisecond env g (sample env (ticks w)) (w\<lparr>ticks := Suc (ticks w)\<rparr>)"
  by (subst blockWaitToNextMillisecond.simps) (simp add: timestamp_sample)

lemma blockWait_skip:
  "\<forall>j<d. sample env (ticks w + j) = lastTimestamp g \<Longrightarrow>
   blockWaitToNextMillisecond env g (lastTimestamp g) w =
   blockWaitToNextMillisecond env g (lastTimestamp g) (w\<lparr>ticks := ticks w + d\<rparr>)"
proof (induction d arbitrary: w)
  case 0
  then show ?case by simp
next
  case (Suc d)
  let ?w1 = "w\<lparr>ticks := Suc (ticks w)\<rparr>"
  from Suc.prems have first: "sample env (ticks w) = lastTimestamp g" by auto
  from Suc.prems have rest: "\<forall>j<d. sample env (ticks ?w1 + j) = lastTimestamp g" by auto
  have "blockWaitToNextMillisecond env g (lastTimestamp g) w =
        blockWaitToNextMillisecond env g (lastTimestamp g) ?w1"
    using blockWait_step [of env g w] first by simp
  also have "\<dots> = blockWaitToNextMillisecond env g (lastTimestamp g) (?w1\<lparr>ticks := ticks ?w1 + d\<rparr>)"
    by (rule Suc.IH [OF rest])
  finally show ?case by simp
qed

lemma blockWait_returns:
  assumes "sample env (ticks w + d) \<noteq> lastTimestamp g"
    and "\<forall>j<d. sample env (ticks w + j) = lastTimestamp g"
  shows "blockWaitToNextMillisecond env g (lastTimestamp g) w =
         Some (sample env (ticks w + d), w\<lparr>ticks := Suc (ticks w + d)\<rparr>)"
proof -
  have "blockWaitToNextMillisecond env g (lastTimestamp g) w =
        blockWaitToNextMillisecond env g (lastTimestamp g) (w\<lparr>ticks := ticks w + d\<rparr>)"
    by (rule blockWait_skip [OF assms(2)])
  also have "\<dots> = blockWaitToNextMillisecond env g (sample env (ticks w + d)) (w\<lparr>ticks := Suc (ticks w + d)\<rparr>)"
    using blockWait_step [of env g "w\<lparr>ticks := ticks w + d\<rparr>"] by simp
  also have "\<dots> = Some (sample env (ticks w + d), w\<lparr>ticks := Suc (ticks w + d)\<rparr>)"
    by (rule blockWait_differs [OF assms(1)])
  finally show ?thesis .
qed

lemma blockWait_Some_aux:
  assumes "blockWaitToNextMillisecond env g cur w = Some y"
  shows "fst y \<noteq> lastTimestamp g \<and> lookups (snd y) = lookups w \<and>
   (if lastTimestamp g = cur
    then ticks w < ticks (snd y) \<and> fst y = sample env (ticks (snd y) - 1) \<and>
         (\<forall>j. ticks w \<le> j \<and> j < ticks (snd y) - 1 \<longrightarrow> sample env j = lastTimestamp g)
    else y = (cur, w))"
  using assms
proof (induction env g cur w y rule: blockWaitToNextMillisecond.raw_induct [rotated 1, consumes 1, case_names 1])
  case (1 bw env g cur w y)
  show ?case
  proof (cases "lastTimestamp g = cur")
    case False
    with 1(2) show ?thesis by auto
  next
    case True
    let ?w1 = "w\<lparr>ticks := Suc (ticks w)\<rparr>"
    from True 1(2) have call: "bw env g (sample env (ticks w)) ?w1 = Some y"
      by (simp add: timestamp_sample)
    note ih = 1(1) [OF call]
    show ?thesis
    proof (cases "sample env (ticks w) = lastTimestamp g")
      case False
      with ih True show ?thesis by auto
    next
      case same: True
      with ih have a: "fst y \<noteq> lastTimestamp g" "lookups (snd y) = lookups w"
        "Suc (ticks w) < ticks (snd y)" "fst y = sample env (ticks (snd y) - 1)"
        "\<forall>j. Suc (ticks w) \<le> j \<and> j < ticks (snd y) - 1 \<longrightarrow> sample env j = lastTimestamp g"
        by auto
      have "\<forall>j. ticks w \<le> j \<and> j < ticks (snd y) - 1 \<longrightarrow> sample env j = lastTimestamp g"
      proof (intro allI impI)
        fix j assume j: "ticks w \<le> j \<and> j < ticks (snd y) - 1"
        show "sample env j = lastTimestamp g"
        proof (cases "j = ticks w")
          case True then show ?thesis using same by simp
        next
          case False
          with j have "Suc (ticks w) \<le> j \<and> j < ticks (snd y) - 1" by simp
          with a(5) show ?thesis by blast
        qed
      qed
      with a True show ?thesis by simp
    qed
  qed
qed

lemma blockWait_Some:
  assumes "blockWaitToNextMillisecond env g (lastTimestamp g) w = Some (t, w')"
  shows "t \<noteq> lastTimestamp g" and "lookups w' = lookups w" and "ticks w < ticks w'"
    and "t = sample env (ticks w' - 1)"
    and "\<forall>j. ticks w \<le> j \<and> j < ticks w' - 1 \<longrightarrow> sample env j = lastTimestamp g"
  using blockWait_Some_aux [OF assms] by auto

lemma blockWait_never:
  assumes "\<forall>j\<ge>ticks w. sample env j = lastTimestamp g"
  shows "blockWaitToNextMillisecond env g (lastTimestamp g) w = None"
proof (cases "blockWaitToNextMillisecond env g (lastTimestamp g) w")
  case None
  then show ?thesis .
next
  case (Some y)
  obtain t w' where y: "y = (t, w')" by (cases y)
  note r = blockWait_Some [OF Some [unfolded y]]
  from r(3) have "ticks w \<le> ticks w' - 1" by simp
  with assms have "sample env (ticks w' - 1) = lastTimestamp g" by blast
  with r(1) r(4) show ?thesis by simp
qed

subsection \<open>The branches of NextID\<close>

lemma signed_less_cases: "\<not> a <s b \<Longrightarrow> a \<noteq> b \<Longrightarrow> b <s (a :: 64 word)"
  by (auto simp: signed.not_less signed.le_less)

lemma NextID_resolution_error:
  assumes "lazyNodeID env g w = (Inl err, w1)"
  shows "NextID env g w = Some ((0, Some err), g, w1)"
  using assms by (simp add: NextID_def)

lemma NextID_regression:
  assumes "lazyNodeID env g w = (Inr g1, w1)"
    and "sample env (ticks w1) <s lastTimestamp g1"
  shows "NextID env g w = Some ((0, Some ErrInvalidState), g1, w1\<lparr>ticks := Suc (ticks w1)\<rparr>)"
  using assms by (simp add: NextID_def timestamp_sample)

lemma NextID_advance:
  assumes "lazyNodeID env g w = (Inr g1, w1)"
    and "lastTimestamp g1 <s sample env (ticks w1)"
  shows "NextID env g w =
         Some ((composeID (sample env (ticks w1)) (nodeID g1) 0, None),
               g1\<lparr>sequence := 0, lastTimestamp := sample env (ticks w1)\<rparr>,
               w1\<lparr>ticks := Suc (ticks w1)\<rparr>)"
proof -
  from assms(2) have "\<not> sample env (ticks w1) <s lastTimestamp g1"
    and "sample env (ticks w1) \<noteq> lastTimestamp g1"
    by (auto simp: word_sless_alt)
  with assms(1) show ?thesis by (simp add: NextID_def timestamp_sample)
qed

lemma NextID_same:
  assumes "lazyNodeID env g w = (Inr g1, w1)"
    and "sample env (ticks w1) = lastTimestamp g1"
    and "(sequence g1 + 1) AND maxSequence \<noteq> 0"
  shows "NextID env g w =
         Some ((composeID (lastTimestamp g1) (nodeID g1) ((sequence g1 + 1) AND maxSequence), None),
               g1\<lparr>sequence := (sequence g1 + 1) AND maxSequence\<rparr>,
               w1\<lparr>ticks := Suc (ticks w1)\<rparr>)"
  using assms by (simp add: NextID_def timestamp_sample Let_def)

lemma NextID_wrap:
  assumes "lazyNodeID env g w = (Inr g1, w1)"
    and "sample env (ticks w1) = lastTimestamp g1"
    and "(sequence g1 + 1) AND maxSequence = 0"
  shows "NextID env g w =
         map_option (\<lambda>(t, w3). ((composeID t (nodeID g1) 0, None),
                                 g1\<lparr>sequence := 0, lastTimestamp := t\<rparr>, w3))
           (blockWaitToNextMillisecond env (g1\<lparr>sequence := 0\<rparr>) (lastTimestamp g1)
              (w1\<lparr>ticks := Suc (ticks w1)\<rparr>))"
  using assms by (simp add: NextID_def timestamp_sample Let_def split: option.splits)

lemma lazyNodeID_cases:
  obtains (set) "nodeID g \<noteq> 0" "lazyNodeID env g w = (Inr g, w)"
  | (failed) nid err where "nodeID g = 0" "createNodeID (host env (lookups w)) = (nid, Some err)"
      "lazyNodeID env g w = (Inl err, w\<lparr>lookups := Suc (lookups w)\<rparr>)"
  | (resolved) nid where "nodeID g = 0" "createNodeID (host env (lookups w)) = (nid, None)"
      "lazyNodeID env g w = (Inr (g\<lparr>nodeID := nid\<rparr>), w\<lparr>lookups := Suc (lookups w)\<rparr>)"
proof (cases "nodeID g = 0")
  case False
  then show ?thesis using set by (simp add: lazyNodeID_def)
next
  case True
  obtain nid eo where c: "createNodeID (host env (lookups w)) = (nid, eo)"
    by (cases "createNodeID (host env (lookups w))")
  show ?thesis
  proof (cases eo)
    case None
    with True c show ?thesis using resolved by (simp add: lazyNodeID_def)
  next
    case (Some err)
    with True c show ?thesis using failed by (simp add: lazyNodeID_def)
  qed
qed

subsection \<open>Signed and unsigned readings\<close>

lemma uint_eq_sint:
  fixes x :: "64 word"
  assumes "0 \<le> sint x"
  shows "uint x = sint x"
proof -
  have "sint x < 2 ^ 64" using sint_lt [of x] by simp
  then have "take_bit 64 (sint x) = sint x" using assms by (simp add: take_bit_int_eq_self)
  then show ?thesis using uint_sint [of x] by simp
qed

lemma sint_eq_uint_small:
  fixes x :: "64 word"
  assumes "uint x < 2 ^ 63"
  shows "sint x = uint x"
proof -
  have "signed_take_bit 63 (uint x) = uint x"
  proof (rule signed_take_bit_int_eq_self)
    have "- (2 ^ 63) \<le> (0 :: int)" by simp
    also have "0 \<le> uint x" by simp
    finally show "- (2 ^ 63) \<le> uint x" .
    show "uint x < 2 ^ 63" by (rule assms)
  qed
  then show ?thesis using sint_uint [of x] by simp
qed

lemma signed_bounds_iff:
  fixes x :: "64 word"
  assumes "sint b = uint b" and "uint b < 2 ^ 63"
  shows "0 \<le>s x \<and> x \<le>s b \<longleftrightarrow> x \<le> b"
proof
  assume a: "0 \<le>s x \<and> x \<le>s b"
  then have "0 \<le> sint x" and "sint x \<le> sint b" by (simp_all add: word_sle_eq)
  then show "x \<le> b" using uint_eq_sint [of x] assms by (simp add: word_le_def)
next
  assume "x \<le> b"
  then have le: "uint x \<le> uint b" by (simp add: word_le_def)
  with assms have "uint x < 2 ^ 63" by simp
  then have "sint x = uint x" by (rule sint_eq_uint_small)
  with le assms show "0 \<le>s x \<and> x \<le>s b" by (simp add: word_sle_eq)
qed

lemma node_bounds_iff: "0 \<le>s n \<and> n \<le>s (1023 :: 64 word) \<longleftrightarrow> n \<le> 1023"
  by (rule signed_bounds_iff) simp_all

lemma seq_bounds_iff: "0 \<le>s s \<and> s \<le>s (4095 :: 64 word) \<longleftrightarrow> s \<le> 4095"
  by (rule signed_bounds_iff) simp_all

lemma inBounds_iff: "inBounds g \<longleftrightarrow> nodeID g \<le> 1023 \<and> sequence g \<le> 4095"
  using node_bounds_iff [of "nodeID g"] seq_bounds_iff [of "sequence g"]
  by (auto simp: inBounds_def maxNodeID_eq maxSequence_eq)

lemma and_4095_le: "(x :: 64 word) AND 4095 \<le> 4095"
  by (rule word_and_le1)

lemma uint_inc_and:
  fixes s :: "64 word"
  assumes "s \<le> 4095"
  shows "uint ((s + 1) AND 4095) = (uint s + 1) mod 4096"
proof -
  have us: "uint s \<le> 4095" using assms by (simp add: word_le_def)
  have m: "(4095 :: 64 word) = mask 12" by (simp add: mask_eq_exp_minus_1)
  have "uint (s + 1) = (uint s + 1) mod 2 ^ 64" by (simp add: uint_word_ariths)
  also have "\<dots> = uint s + 1" using us by simp
  finally have "uint (s + 1) = uint s + 1" .
  then show ?thesis unfolding m by (simp add: and_mask_mod_2p uint_word_of_int)
qed

lemma uint_inc_no_wrap:
  fixes s :: "64 word"
  assumes "s \<le> 4095" and "(s + 1) AND 4095 \<noteq> 0"
  shows "uint ((s + 1) AND 4095) = uint s + 1"
proof -
  have us: "uint s \<le> 4095" using assms(1) by (simp add: word_le_def)
  have "uint s \<noteq> 4095"
  proof
    assume "uint s = 4095"
    then have "uint ((s + 1) AND 4095) = 0" using uint_inc_and [OF assms(1)] by simp
    then have "(s + 1) AND 4095 = 0" by (simp add: uint_0_iff)
    with assms(2) show False by simp
  qed
  with us have "uint s + 1 < 4096" by simp
  then show ?thesis using uint_inc_and [OF assms(1)] by simp
qed

lemma sample_mono:
  assumes "\<forall>k. sample env k \<le>s sample env (Suc k)" and "a \<le> b"
  shows "sample env a \<le>s sample env b"
  using assms(2)
proof (induction b)
  case 0
  then show ?case by simp
next
  case (Suc b)
  show ?case
  proof (cases "a = Suc b")
    case True
    then show ?thesis by simp
  next
    case False
    with Suc.prems have "a \<le> b" by simp
    then have "sample env a \<le>s sample env b" by (rule Suc.IH)
    moreover have "sample env b \<le>s sample env (Suc b)" using assms(1) by blast
    ultimately show ?thesis by (rule signed.order_trans)
  qed
qed

subsection \<open>One call keeps the generator well formed and raises its rank\<close>

lemma sint_2p41: "sint (2 ^ 41 :: 64 word) = 2 ^ 41"
  by simp

lemma advance_facts:
  assumes wf: "wellFormed g1" and lt: "lastTimestamp g1 <s t" and hi: "t <s 2 ^ 41"
  shows "wellFormed (g1\<lparr>sequence := 0, lastTimestamp := t\<rparr>)"
    and "rank g1 < rank (g1\<lparr>sequence := 0, lastTimestamp := t\<rparr>)"
    and "sint (composeID t (nodeID g1) 0) = rank (g1\<lparr>sequence := 0, lastTimestamp := t\<rparr>)"
proof -
  from wf have n: "nodeID g1 \<le> 1023" and s: "sequence g1 \<le> 4095"
    and lo: "- (2 ^ 41) \<le> sint (lastTimestamp g1)"
    by (simp_all add: wellFormed_def)
  from lt have lt': "sint (lastTimestamp g1) < sint t" by (simp add: word_sless_alt)
  from hi have hi': "sint t < 2 ^ 41" by (simp add: word_sless_alt)
  from lo lt' have lo': "- (2 ^ 41) \<le> sint t" by linarith
  show "wellFormed (g1\<lparr>sequence := 0, lastTimestamp := t\<rparr>)"
    using n lo' hi' by (simp add: wellFormed_def)
  have us: "uint (sequence g1) \<le> 4095" using s by (simp add: word_le_def)
  have "sint (lastTimestamp g1) * 4194304 + uint (sequence g1) < sint t * 4194304"
    using lt' us by linarith
  then show "rank g1 < rank (g1\<lparr>sequence := 0, lastTimestamp := t\<rparr>)"
    by (simp add: rank_def)
  show "sint (composeID t (nodeID g1) 0) = rank (g1\<lparr>sequence := 0, lastTimestamp := t\<rparr>)"
    using sint_composeID [OF n _ lo' hi', of 0] by (simp add: rank_def)
qed

lemma same_facts:
  assumes wf: "wellFormed g1" and nz: "(sequence g1 + 1) AND maxSequence \<noteq> 0"
  shows "wellFormed (g1\<lparr>sequence := (sequence g1 + 1) AND maxSequence\<rparr>)"
    and "rank g1 < rank (g1\<lparr>sequence := (sequence g1 + 1) AND maxSequence\<rparr>)"
    and "sint (composeID (lastTimestamp g1) (nodeID g1) ((sequence g1 + 1) AND maxSequence)) =
         rank (g1\<lparr>sequence := (sequence g1 + 1) AND maxSequence\<rparr>)"
proof -
  from wf have n: "nodeID g1 \<le> 1023" and s: "sequence g1 \<le> 4095"
    and lo: "- (2 ^ 41) \<le> sint (lastTimestamp g1)" and hi: "sint (lastTimestamp g1) < 2 ^ 41"
    by (simp_all add: wellFormed_def)
  let ?s = "(sequence g1 + 1) AND 4095"
  have b: "?s \<le> 4095" by (rule and_4095_le)
  have u: "uint ?s = uint (sequence g1) + 1"
    using uint_inc_no_wrap [OF s] nz by (simp add: maxSequence_eq)
  show "wellFormed (g1\<lparr>sequence := (sequence g1 + 1) AND maxSequence\<rparr>)"
    using n b lo hi by (simp add: wellFormed_def maxSequence_eq)
  show "rank g1 < rank (g1\<lparr>sequence := (sequence g1 + 1) AND maxSequence\<rparr>)"
    using u by (simp add: rank_def maxSequence_eq)
  show "sint (composeID (lastTimestamp g1) (nodeID g1) ((sequence g1 + 1) AND maxSequence)) =
         rank (g1\<lparr>sequence := (sequence g1 + 1) AND maxSequence\<rparr>)"
    using sint_composeID [OF n b lo hi] by (simp add: rank_def maxSequence_eq)
qed

lemma step_after_resolution:
  assumes l: "lazyNodeID env g w = (Inr g1, w1)"
    and wf: "wellFormed g1"
    and mono: "\<forall>k. sample env k \<le>s sample env (Suc k)"
    and range: "\<forall>k. sample env k <s 2 ^ 41"
    and call: "NextID env g w = Some ((i, e), g', w')"
  shows "wellFormed g' \<and> nodeID g' = nodeID g1 \<and> rank g1 \<le> rank g' \<and>
         (e = None \<longrightarrow> rank g1 < rank g' \<and> sint i = rank g')"
proof -
  let ?t = "sample env (ticks w1)"
  let ?last = "lastTimestamp g1"
  consider (regress) "?t <s ?last" | (fwd) "?last <s ?t"
    | (same) "?t = ?last" "(sequence g1 + 1) AND maxSequence \<noteq> 0"
    | (wrap) "?t = ?last" "(sequence g1 + 1) AND maxSequence = 0"
    using signed_less_cases [of ?t ?last] by blast
  then show ?thesis
  proof cases
    case regress
    from NextID_regression [OF l regress] call wf show ?thesis by simp
  next
    case fwd
    have hi: "?t <s 2 ^ 41" using range by blast
    note f = advance_facts [OF wf fwd hi]
    from NextID_advance [OF l fwd] call
    have "g' = g1\<lparr>sequence := 0, lastTimestamp := ?t\<rparr>" and "i = composeID ?t (nodeID g1) 0"
      by simp_all
    with f show ?thesis by simp
  next
    case same
    note f = same_facts [OF wf same(2)]
    from NextID_same [OF l same] call
    have "g' = g1\<lparr>sequence := (sequence g1 + 1) AND maxSequence\<rparr>"
      and "i = composeID ?last (nodeID g1) ((sequence g1 + 1) AND maxSequence)"
      by simp_all
    with f show ?thesis by simp
  next
    case wrap
    let ?g2 = "g1\<lparr>sequence := 0\<rparr>"
    let ?w2 = "w1\<lparr>ticks := Suc (ticks w1)\<rparr>"
    from call [unfolded NextID_wrap [OF l wrap]]
    obtain t w3 where bw: "blockWaitToNextMillisecond env ?g2 (lastTimestamp ?g2) ?w2 = Some (t, w3)"
      and g': "g' = g1\<lparr>sequence := 0, lastTimestamp := t\<rparr>" and i: "i = composeID t (nodeID g1) 0"
      by auto
    note r = blockWait_Some [OF bw]
    from r(3) have "ticks w1 \<le> ticks w3 - 1" by simp
    then have "?t \<le>s sample env (ticks w3 - 1)" by (rule sample_mono [OF mono])
    with r(1) r(4) wrap(1) have fwd: "?last <s t" by (auto simp: signed.le_less)
    have hi: "t <s 2 ^ 41" using range r(4) by simp
    note f = advance_facts [OF wf fwd hi]
    with g' i show ?thesis by simp
  qed
qed

lemma NextID_step:
  assumes wf: "wellFormed g"
    and mono: "\<forall>k. sample env k \<le>s sample env (Suc k)"
    and range: "\<forall>k. sample env k <s 2 ^ 41"
    and nodes: "nodeID g = 0 \<longrightarrow> (\<forall>k. fst (createNodeID (host env k)) \<le> 1023)"
    and call: "NextID env g w = Some ((i, e), g', w')"
  shows "wellFormed g' \<and> (nodeID g' = 0 \<longrightarrow> nodeID g = 0) \<and> rank g \<le> rank g' \<and>
         (e = None \<longrightarrow> rank g < rank g' \<and> sint i = rank g')"
proof (cases rule: lazyNodeID_cases [where g = g and env = env and w = w])
  case set
  from step_after_resolution [OF set(2) wf mono range call] set(1) show ?thesis by simp
next
  case (failed nid err)
  from NextID_resolution_error [OF failed(3)] call wf show ?thesis by simp
next
  case (resolved nid)
  let ?g1 = "g\<lparr>nodeID := nid\<rparr>"
  from nodes resolved(1) resolved(2) have nid: "nid \<le> 1023"
    by (metis fst_conv)
  with wf have wf1: "wellFormed ?g1" by (simp add: wellFormed_def)
  have r: "rank g \<le> rank ?g1" using resolved(1) by (simp add: rank_def)
  from step_after_resolution [OF resolved(3) wf1 mono range call] r resolved(1)
  show ?thesis by auto
qed

lemma wellFormed_New: "wellFormed New"
  by (simp add: wellFormed_def New_def)

lemma wellFormed_NewWithNodeID: "NewWithNodeID n = Inr g \<Longrightarrow> wellFormed g"
  using node_bounds_iff [of n]
  by (auto simp: wellFormed_def NewWithNodeID_def maxNodeID_eq signed.not_less split: if_splits)

subsection \<open>Runs\<close>

lemma issued_Cons:
  "issued ((i, e) # rs) = (if e = None then i # issued rs else issued rs)"
  by (simp add: issued_def)

lemma run_Suc_Some:
  assumes "run env (Suc m) g w = Some (rs, g', w')"
  obtains i e g1 w1 rs' where "NextID env g w = Some ((i, e), g1, w1)"
    and "run env m g1 w1 = Some (rs', g', w')" and "rs = (i, e) # rs'"
  using assms by (auto split: option.splits)

lemma run_sorted:
  assumes mono: "\<forall>k. sample env k \<le>s sample env (Suc k)"
    and range: "\<forall>k. sample env k <s 2 ^ 41"
  shows "wellFormed g \<Longrightarrow>
         (nodeID g = 0 \<longrightarrow> (\<forall>k. fst (createNodeID (host env k)) \<le> 1023)) \<Longrightarrow>
         run env m g w = Some (rs, g', w') \<Longrightarrow>
         sorted_wrt (<s) (issued rs) \<and> (\<forall>j\<in>set (issued rs). rank g < sint j)"
proof (induction m arbitrary: g w rs)
  case 0
  then show ?case by (simp add: issued_def)
next
  case (Suc m)
  from Suc.prems(3) obtain i e g1 w1 rs' where call: "NextID env g w = Some ((i, e), g1, w1)"
    and rest: "run env m g1 w1 = Some (rs', g', w')" and rs: "rs = (i, e) # rs'"
    by (rule run_Suc_Some)
  from NextID_step [OF Suc.prems(1) mono range Suc.prems(2) call]
  have wf1: "wellFormed g1" and z: "nodeID g1 = 0 \<longrightarrow> nodeID g = 0"
    and le: "rank g \<le> rank g1" and ok: "e = None \<longrightarrow> rank g < rank g1 \<and> sint i = rank g1"
    by simp_all
  from z Suc.prems(2)
  have nodes1: "nodeID g1 = 0 \<longrightarrow> (\<forall>k. fst (createNodeID (host env k)) \<le> 1023)" by blast
  from Suc.IH [OF wf1 nodes1 rest]
  have srt: "sorted_wrt (<s) (issued rs')" and above: "\<forall>j\<in>set (issued rs'). rank g1 < sint j"
    by simp_all
  show ?case
  proof (cases "e = None")
    case True
    with ok have a: "rank g < rank g1" and b: "sint i = rank g1" by simp_all
    from above b have "\<forall>j\<in>set (issued rs'). i <s j" by (simp add: word_sless_alt)
    moreover from above a b have "\<forall>j\<in>set (i # issued rs'). rank g < sint j" by auto
    ultimately show ?thesis using srt True rs by (simp add: issued_Cons)
  next
    case False
    from above le have "\<forall>j\<in>set (issued rs'). rank g < sint j" by auto
    with srt False rs show ?thesis by (auto simp: issued_Cons)
  qed
qed

lemma sorted_wrt_sless_distinct: "sorted_wrt (<s) (xs :: 64 word list) \<Longrightarrow> distinct xs"
  by (induction xs) auto

subsection \<open>What a call that returns has done\<close>

lemma lazyNodeID_keeps:
  assumes "lazyNodeID env g w = (Inr g1, w1)"
  shows "lastTimestamp g1 = lastTimestamp g" and "sequence g1 = sequence g"
    and "ticks w1 = ticks w" and "nodeID g \<noteq> 0 \<Longrightarrow> g1 = g \<and> w1 = w"
  using assms by (auto simp: lazyNodeID_def split: if_splits prod.splits option.splits)

lemma success_after_resolution:
  assumes l: "lazyNodeID env g w = (Inr g1, w1)"
    and call: "NextID env g w = Some ((i, None), g', w')"
  shows "nodeID g' = nodeID g1 \<and> sequence g' \<le> 4095 \<and>
         i = composeID (lastTimestamp g') (nodeID g') (sequence g') \<and>
         lookups w' = lookups w1 \<and> ticks w1 < ticks w' \<and>
         lastTimestamp g' = sample env (ticks w' - 1)"
proof -
  let ?t = "sample env (ticks w1)"
  let ?last = "lastTimestamp g1"
  consider (regress) "?t <s ?last" | (fwd) "?last <s ?t"
    | (same) "?t = ?last" "(sequence g1 + 1) AND maxSequence \<noteq> 0"
    | (wrap) "?t = ?last" "(sequence g1 + 1) AND maxSequence = 0"
    using signed_less_cases [of ?t ?last] by blast
  then show ?thesis
  proof cases
    case regress
    from NextID_regression [OF l regress] call show ?thesis by simp
  next
    case fwd
    from NextID_advance [OF l fwd] call show ?thesis by auto
  next
    case same
    from NextID_same [OF l same] call and_4095_le [of "sequence g1 + 1"] same(1)
    show ?thesis by (auto simp: maxSequence_eq)
  next
    case wrap
    let ?g2 = "g1\<lparr>sequence := 0\<rparr>"
    let ?w2 = "w1\<lparr>ticks := Suc (ticks w1)\<rparr>"
    from call [unfolded NextID_wrap [OF l wrap]]
    obtain t w3 where bw: "blockWaitToNextMillisecond env ?g2 (lastTimestamp ?g2) ?w2 = Some (t, w3)"
      and g': "g' = g1\<lparr>sequence := 0, lastTimestamp := t\<rparr>" and i: "i = composeID t (nodeID g1) 0"
      and w': "w' = w3"
      by auto
    note r = blockWait_Some [OF bw]
    from r(2) r(3) r(4) g' i w' show ?thesis by simp
  qed
qed

lemma NextID_failure:
  assumes call: "NextID env g w = Some ((i, Some err), g', w')"
  shows "i = 0 \<and> lastTimestamp g' = lastTimestamp g \<and> sequence g' = sequence g \<and>
         (nodeID g \<noteq> 0 \<longrightarrow> g' = g \<and> lookups w' = lookups w)"
proof (cases rule: lazyNodeID_cases [where g = g and env = env and w = w])
  case (failed nid e)
  from NextID_resolution_error [OF failed(3)] call failed(1) show ?thesis by simp
next
  case set
  have "sample env (ticks w) <s lastTimestamp g"
  proof (rule ccontr)
    assume n: "\<not> sample env (ticks w) <s lastTimestamp g"
    show False
    proof (cases "sample env (ticks w) = lastTimestamp g")
      case False
      with n have "lastTimestamp g <s sample env (ticks w)" by (rule signed_less_cases)
      from NextID_advance [OF set(2) this] call show False by simp
    next
      case True
      show False
      proof (cases "(sequence g + 1) AND maxSequence = 0")
        case False
        from NextID_same [OF set(2) True False] call show False by simp
      next
        case z: True
        from call [unfolded NextID_wrap [OF set(2) True z]] show False by auto
      qed
    qed
  qed
  from NextID_regression [OF set(2) this] call show ?thesis by simp
next
  case (resolved nid)
  let ?g1 = "g\<lparr>nodeID := nid\<rparr>"
  let ?w1 = "w\<lparr>lookups := Suc (lookups w)\<rparr>"
  have "sample env (ticks ?w1) <s lastTimestamp ?g1"
  proof (rule ccontr)
    assume n: "\<not> sample env (ticks ?w1) <s lastTimestamp ?g1"
    show False
    proof (cases "sample env (ticks ?w1) = lastTimestamp ?g1")
      case False
      with n have "lastTimestamp ?g1 <s sample env (ticks ?w1)" by (rule signed_less_cases)
      from NextID_advance [OF resolved(3) this] call show False by simp
    next
      case True
      show False
      proof (cases "(sequence ?g1 + 1) AND maxSequence = 0")
        case False
        from NextID_same [OF resolved(3) True False] call show False by simp
      next
        case z: True
        from call [unfolded NextID_wrap [OF resolved(3) True z]] show False by auto
      qed
    qed
  qed
  from NextID_regression [OF resolved(3) this] call resolved(1) show ?thesis by simp
qed

lemma run_keeps_node:
  assumes n: "nodeID g \<noteq> 0" "nodeID g \<le> 1023"
  shows "run env m g w = Some (rs, g', w') \<Longrightarrow>
         lookups w' = lookups w \<and> nodeID g' = nodeID g \<and>
         (\<forall>i\<in>set (issued rs). nodeIDField i = nodeID g)"
  using n
proof (induction m arbitrary: g w rs)
  case 0
  then show ?case by (simp add: issued_def)
next
  case (Suc m)
  from Suc.prems(1) obtain i e g1 w1 rs' where call: "NextID env g w = Some ((i, e), g1, w1)"
    and rest: "run env m g1 w1 = Some (rs', g', w')" and rs: "rs = (i, e) # rs'"
    by (rule run_Suc_Some)
  have l: "lazyNodeID env g w = (Inr g, w)" using Suc.prems(2) by (simp add: lazyNodeID_def)
  have one: "nodeID g1 = nodeID g \<and> lookups w1 = lookups w \<and> (e = None \<longrightarrow> nodeIDField i = nodeID g)"
  proof (cases e)
    case None
    from success_after_resolution [OF l call [unfolded None]]
    have a: "nodeID g1 = nodeID g" "sequence g1 \<le> 4095"
      "i = composeID (lastTimestamp g1) (nodeID g1) (sequence g1)" "lookups w1 = lookups w"
      by simp_all
    from a(1) Suc.prems(3) have "nodeID g1 \<le> 1023" by simp
    from nodeIDField_composeID [OF this a(2)] a show ?thesis by simp
  next
    case (Some err)
    from NextID_failure [OF call [unfolded Some]] Suc.prems(2) Some show ?thesis by simp
  qed
  then have n1: "nodeID g1 \<noteq> 0" "nodeID g1 \<le> 1023" using Suc.prems(2,3) by simp_all
  from Suc.IH [OF rest n1] one
  have "lookups w' = lookups w" "nodeID g' = nodeID g" "\<forall>j\<in>set (issued rs'). nodeIDField j = nodeID g"
    by simp_all
  with one rs show ?case by (auto simp: issued_Cons)
qed

lemma NextID_success_fields:
  assumes call: "NextID env g w = Some ((i, None), g', w')"
  shows "sequence g' \<le> 4095 \<and> i = composeID (lastTimestamp g') (nodeID g') (sequence g') \<and>
         ticks w < ticks w' \<and> lastTimestamp g' = sample env (ticks w' - 1)"
proof (cases rule: lazyNodeID_cases [where g = g and env = env and w = w])
  case (failed nid err)
  from NextID_resolution_error [OF failed(3)] call show ?thesis by simp
next
  case set
  from success_after_resolution [OF set(2) call] show ?thesis by simp
next
  case (resolved nid)
  from success_after_resolution [OF resolved(3) call] show ?thesis by simp
qed

lemma composeID_roundtrip:
  assumes t: "0 \<le>s t" "t <s 2 ^ 41" and n: "0 \<le>s n" "n \<le>s 1023" and s: "0 \<le>s s" "s \<le>s 4095"
  shows "decomposeID (composeID t n s) = (t, n, s)" and "0 \<le>s composeID t n s"
proof -
  from n have n': "n \<le> 1023" by (simp add: node_bounds_iff [symmetric])
  from s have s': "s \<le> 4095" by (simp add: seq_bounds_iff [symmetric])
  from t have t0: "0 \<le> sint t" and hi: "sint t < 2 ^ 41"
    by (simp_all add: word_sle_eq word_sless_alt)
  from t0 have lo: "- (2 ^ 41) \<le> sint t" by simp
  show "decomposeID (composeID t n s) = (t, n, s)"
    by (simp add: decomposeID_def timestampField_composeID [OF n' s' lo hi]
        nodeIDField_composeID [OF n' s'] sequenceField_composeID [OF s'])
  have "0 \<le> sint t * 2 ^ 22 + uint n * 2 ^ 12 + uint s" using t0 by simp
  then show "0 \<le>s composeID t n s"
    by (simp add: word_sle_eq sint_composeID [OF n' s' lo hi])
qed

lemma sint_bounds_41:
  fixes t :: "64 word"
  assumes "- (2 ^ 41) \<le>s t" and "t <s 2 ^ 41"
  shows "- (2 ^ 41) \<le> sint t" and "sint t < 2 ^ 41"
  using assms by (simp_all add: word_sle_eq word_sless_alt)

subsection \<open>Calls within one millisecond\<close>

lemma inc_within_millisecond:
  fixes s :: "64 word"
  assumes "uint s + 1 \<le> 4095"
  shows "(s + 1) AND maxSequence = s + 1" and "s + 1 \<noteq> 0" and "uint (s + 1) = uint s + 1"
proof -
  have "uint s \<le> uint (4095 :: 64 word)" using assms by simp
  then have s: "s \<le> 4095" by (simp only: word_le_def)
  have a: "uint ((s + 1) AND 4095) = uint s + 1"
    using uint_inc_and [OF s] assms by simp
  have "uint (s + 1) = (uint s + 1) mod 2 ^ 64" by (simp add: uint_word_ariths)
  also have "\<dots> = uint s + 1" using assms by simp
  finally show b: "uint (s + 1) = uint s + 1" .
  from a b have "uint ((s + 1) AND 4095) = uint (s + 1)" by simp
  then show "(s + 1) AND maxSequence = s + 1" by (simp add: maxSequence_eq word_uint_eq_iff)
  show "s + 1 \<noteq> 0"
  proof
    assume "s + 1 = 0"
    then have "uint (s + 1) = 0" by simp
    with b have "uint s + 1 = 0" by simp
    moreover have "0 \<le> uint s" by simp
    ultimately show False by linarith
  qed
qed

lemma run_same_millisecond:
  "nodeID g \<noteq> 0 \<Longrightarrow> \<forall>j<m. sample env (ticks w + j) = lastTimestamp g \<Longrightarrow>
   uint (sequence g) + int m \<le> 4095 \<Longrightarrow>
   \<exists>rs. run env m g w = Some (rs, g\<lparr>sequence := sequence g + of_nat m\<rparr>, w\<lparr>ticks := ticks w + m\<rparr>) \<and>
        length rs = m \<and> (\<forall>r\<in>set rs. snd r = None)"
proof (induction m arbitrary: g w)
  case 0
  then show ?case by simp
next
  case (Suc m)
  let ?g1 = "g\<lparr>sequence := sequence g + 1\<rparr>"
  let ?w1 = "w\<lparr>ticks := Suc (ticks w)\<rparr>"
  from Suc.prems(3) have room: "uint (sequence g) + 1 \<le> 4095" by simp
  note inc = inc_within_millisecond [OF room]
  have l: "lazyNodeID env g w = (Inr g, w)" using Suc.prems(1) by (simp add: lazyNodeID_def)
  from Suc.prems(2) have s0: "sample env (ticks w) = lastTimestamp g" by auto
  from inc(1,2) have nz: "(sequence g + 1) AND maxSequence \<noteq> 0" by simp
  from NextID_same [OF l s0 nz] inc(1)
  have call: "NextID env g w =
      Some ((composeID (lastTimestamp g) (nodeID g) (sequence g + 1), None), ?g1, ?w1)"
    by simp
  have n1: "nodeID ?g1 \<noteq> 0" using Suc.prems(1) by simp
  have st1: "\<forall>j<m. sample env (ticks ?w1 + j) = lastTimestamp ?g1"
    using Suc.prems(2) by auto
  have room1: "uint (sequence ?g1) + int m \<le> 4095"
    using Suc.prems(3) inc(3) by simp
  from Suc.IH [OF n1 st1 room1]
  obtain rs where rest: "run env m ?g1 ?w1 =
      Some (rs, ?g1\<lparr>sequence := sequence ?g1 + of_nat m\<rparr>, ?w1\<lparr>ticks := ticks ?w1 + m\<rparr>)"
    and len: "length rs = m" and ok: "\<forall>r\<in>set rs. snd r = None"
    by blast
  have "run env (Suc m) g w =
      Some ((composeID (lastTimestamp g) (nodeID g) (sequence g + 1), None) # rs,
            g\<lparr>sequence := sequence g + of_nat (Suc m)\<rparr>, w\<lparr>ticks := ticks w + Suc m\<rparr>)"
    using call rest by (simp add: ac_simps)
  with len ok show ?case by simp
qed

subsection \<open>The examples, evaluated\<close>

lemma sample_clockRollover: "sample (envOf clockRollover h) k = clockRollover k"
  by (simp add: sample_def timestamp_def envOf_def nanosOf_def clockRollover_def customEpoch_def)

lemma sample_clockTicking: "sample (envOf clockTicking h) k = clockTicking k"
  by (simp add: sample_def timestamp_def envOf_def nanosOf_def clockTicking_def customEpoch_def)

lemma run_two:
  "run env (Suc (Suc 0)) g w =
     (case NextID env g w of None \<Rightarrow> None
      | Some (r1, g1, w1) \<Rightarrow>
          (case NextID env g1 w1 of None \<Rightarrow> None
           | Some (r2, g2, w2) \<Rightarrow> Some ([r1, r2], g2, w2)))"
  by (simp split: option.splits)

lemma rollover_first:
  "NextID (envOf clockRollover wiredHost) \<lparr>nodeID = 1, lastTimestamp = - 1, sequence = 0\<rparr> world0 =
     Some ((9223372036850585600, None), \<lparr>nodeID = 1, lastTimestamp = 2199023255551, sequence = 0\<rparr>,
           \<lparr>ticks = 1, lookups = 0\<rparr>)"
proof -
  let ?g = "\<lparr>nodeID = 1, lastTimestamp = - 1, sequence = 0\<rparr>"
  have l: "lazyNodeID (envOf clockRollover wiredHost) ?g world0 = (Inr ?g, world0)"
    by (simp add: lazyNodeID_def)
  show ?thesis
    using NextID_advance [OF l]
    by (simp add: sample_clockRollover clockRollover_def composeID_mult world0_def word_sless_alt)
qed

lemma rollover_second:
  "NextID (envOf clockRollover wiredHost)
      \<lparr>nodeID = 1, lastTimestamp = 2199023255551, sequence = 0\<rparr> \<lparr>ticks = 1, lookups = 0\<rparr> =
     Some ((9223372036854779904, None), \<lparr>nodeID = 1, lastTimestamp = 2199023255552, sequence = 0\<rparr>,
           \<lparr>ticks = 2, lookups = 0\<rparr>)"
proof -
  let ?g = "\<lparr>nodeID = 1, lastTimestamp = 2199023255551, sequence = 0\<rparr>"
  let ?w = "\<lparr>ticks = 1, lookups = 0\<rparr>"
  have l: "lazyNodeID (envOf clockRollover wiredHost) ?g ?w = (Inr ?g, ?w)"
    by (simp add: lazyNodeID_def)
  show ?thesis
    using NextID_advance [OF l]
    by (simp add: sample_clockRollover clockRollover_def composeID_mult word_sless_alt)
qed

lemma createNodeID_wiredHost: "createNodeID wiredHost = (609, None)"
  by (simp add: createNodeID_def wiredHost_def sprintf02X_def hexDigit_def fnv32a_def maxNodeID_eq)

lemma createNodeID_bareHost: "createNodeID bareHost = (1024, None)"
  by (simp add: createNodeID_def bareHost_def)

lemma host_envOf: "host (envOf ms h) k = h"
  by (simp add: envOf_def)

lemma ticking_first:
  "NextID (envOf clockTicking wiredHost) New world0 =
     Some ((23465984, None), \<lparr>nodeID = 609, lastTimestamp = 5, sequence = 0\<rparr>,
           \<lparr>ticks = 1, lookups = 1\<rparr>)"
proof -
  have l: "lazyNodeID (envOf clockTicking wiredHost) New world0 =
      (Inr \<lparr>nodeID = 609, lastTimestamp = - 1, sequence = 0\<rparr>, \<lparr>ticks = 0, lookups = 1\<rparr>)"
    by (simp add: lazyNodeID_def New_def world0_def host_envOf createNodeID_wiredHost)
  show ?thesis
    using NextID_advance [OF l]
    by (simp add: sample_clockTicking clockTicking_def composeID_mult word_sless_alt)
qed

lemma ticking_second:
  "NextID (envOf clockTicking wiredHost) \<lparr>nodeID = 609, lastTimestamp = 5, sequence = 0\<rparr>
      \<lparr>ticks = 1, lookups = 1\<rparr> =
     Some ((27660288, None), \<lparr>nodeID = 609, lastTimestamp = 6, sequence = 0\<rparr>,
           \<lparr>ticks = 2, lookups = 1\<rparr>)"
proof -
  let ?g = "\<lparr>nodeID = 609, lastTimestamp = 5, sequence = 0\<rparr>"
  let ?w = "\<lparr>ticks = 1, lookups = 1\<rparr>"
  have l: "lazyNodeID (envOf clockTicking wiredHost) ?g ?w = (Inr ?g, ?w)"
    by (simp add: lazyNodeID_def)
  show ?thesis
    using NextID_advance [OF l]
    by (simp add: sample_clockTicking clockTicking_def composeID_mult word_sless_alt)
qed

lemma ticking_third:
  "NextID (envOf clockTicking wiredHost) \<lparr>nodeID = 609, lastTimestamp = 6, sequence = 0\<rparr>
      \<lparr>ticks = 2, lookups = 1\<rparr> =
     Some ((27660289, None), \<lparr>nodeID = 609, lastTimestamp = 6, sequence = 1\<rparr>,
           \<lparr>ticks = 3, lookups = 1\<rparr>)"
proof -
  let ?g = "\<lparr>nodeID = 609, lastTimestamp = 6, sequence = 0\<rparr>"
  let ?w = "\<lparr>ticks = 2, lookups = 1\<rparr>"
  have l: "lazyNodeID (envOf clockTicking wiredHost) ?g ?w = (Inr ?g, ?w)"
    by (simp add: lazyNodeID_def)
  show ?thesis
    using NextID_same [OF l]
    by (simp add: sample_clockTicking clockTicking_def composeID_mult maxSequence_eq)
qed

lemma ticking_run:
  "run (envOf clockTicking wiredHost) (Suc (Suc (Suc 0))) New world0 =
     Some ([(23465984, None), (27660288, None), (27660289, None)],
           \<lparr>nodeID = 609, lastTimestamp = 6, sequence = 1\<rparr>, \<lparr>ticks = 3, lookups = 1\<rparr>)"
  by (simp only: run.simps ticking_first ticking_second ticking_third option.case prod.case)

lemma sample_clockStall: "sample (envOf clockStall h) k = clockStall k"
  by (simp add: sample_def timestamp_def envOf_def nanosOf_def clockStall_def customEpoch_def)

lemma sample_clockTwoThree: "sample (envOf clockTwoThree h) k = clockTwoThree k"
  by (simp add: sample_def timestamp_def envOf_def nanosOf_def clockTwoThree_def customEpoch_def)

lemma sample_clockLong: "sample (envOf clockLong h) k = clockLong k"
  by (simp add: sample_def timestamp_def envOf_def nanosOf_def clockLong_def customEpoch_def)

lemma long_first:
  "NextID (envOf clockLong wiredHost) \<lparr>nodeID = 1, lastTimestamp = - 1, sequence = 0\<rparr> world0 =
     Some ((20975616, None), \<lparr>nodeID = 1, lastTimestamp = 5, sequence = 0\<rparr>, \<lparr>ticks = 1, lookups = 0\<rparr>)"
proof -
  let ?g = "\<lparr>nodeID = 1, lastTimestamp = - 1, sequence = 0\<rparr>"
  have l: "lazyNodeID (envOf clockLong wiredHost) ?g world0 = (Inr ?g, world0)"
    by (simp add: lazyNodeID_def)
  show ?thesis
    using NextID_advance [OF l]
    by (simp add: sample_clockLong clockLong_def composeID_mult world0_def word_sless_alt)
qed

lemma long_exhausts:
  "map_option snd (run (envOf clockLong wiredHost) 4096 \<lparr>nodeID = 1, lastTimestamp = - 1, sequence = 0\<rparr> world0) =
     Some (\<lparr>nodeID = 1, lastTimestamp = 5, sequence = 4095\<rparr>, \<lparr>ticks = 4096, lookups = 0\<rparr>)"
proof -
  let ?E = "envOf clockLong wiredHost"
  let ?g = "\<lparr>nodeID = 1, lastTimestamp = 5, sequence = 0\<rparr>"
  let ?w = "\<lparr>ticks = 1, lookups = 0\<rparr>"
  have n: "nodeID ?g \<noteq> 0" by simp
  have st: "\<forall>j<4095. sample ?E (ticks ?w + j) = lastTimestamp ?g"
    by (simp add: sample_clockLong clockLong_def)
  have room: "uint (sequence ?g) + int 4095 \<le> 4095" by simp
  from run_same_millisecond [OF n st room]
  obtain rs where r: "run ?E 4095 ?g ?w =
      Some (rs, \<lparr>nodeID = 1, lastTimestamp = 5, sequence = 4095\<rparr>, \<lparr>ticks = 4096, lookups = 0\<rparr>)"
    by auto
  have "(4096 :: nat) = Suc 4095" by simp
  then have "run ?E 4096 \<lparr>nodeID = 1, lastTimestamp = - 1, sequence = 0\<rparr> world0 =
      Some ((20975616, None) # rs, \<lparr>nodeID = 1, lastTimestamp = 5, sequence = 4095\<rparr>, \<lparr>ticks = 4096, lookups = 0\<rparr>)"
    using long_first r by (simp only: run.simps option.case prod.case)
  then show ?thesis by simp
qed

lemma long_exhausted:
  "NextID (envOf clockLong wiredHost) \<lparr>nodeID = 1, lastTimestamp = 5, sequence = 4095\<rparr>
      \<lparr>ticks = 4096, lookups = 0\<rparr> =
     Some ((20975616, None), \<lparr>nodeID = 1, lastTimestamp = 4398046511109, sequence = 0\<rparr>,
           \<lparr>ticks = 4098, lookups = 0\<rparr>)"
proof -
  let ?E = "envOf clockLong wiredHost"
  let ?g = "\<lparr>nodeID = 1, lastTimestamp = 5, sequence = 4095\<rparr>"
  let ?w = "\<lparr>ticks = 4096, lookups = 0\<rparr>"
  have l: "lazyNodeID ?E ?g ?w = (Inr ?g, ?w)"
    by (simp add: lazyNodeID_def)
  have s0: "sample ?E (ticks ?w) = lastTimestamp ?g"
    by (simp add: sample_clockLong clockLong_def)
  have z: "(sequence ?g + 1) AND maxSequence = 0"
    by (simp add: maxSequence_eq)
  have bw: "blockWaitToNextMillisecond ?E (?g\<lparr>sequence := 0\<rparr>) (lastTimestamp (?g\<lparr>sequence := 0\<rparr>))
              (?w\<lparr>ticks := Suc (ticks ?w)\<rparr>) =
            Some (4398046511109, \<lparr>ticks = 4098, lookups = 0\<rparr>)"
    using blockWait_returns [of ?E "?w\<lparr>ticks := Suc (ticks ?w)\<rparr>" 0 "?g\<lparr>sequence := 0\<rparr>"]
    by (simp add: sample_clockLong clockLong_def)
  have c: "composeID 4398046511109 1 0 = 20975616"
    by (simp add: composeID_mult)
  from NextID_wrap [OF l s0 z] bw c show ?thesis by simp
qed

lemma seven_first:
  "NextID (envOf clockTicking bareHost) \<lparr>nodeID = 7, lastTimestamp = - 1, sequence = 0\<rparr> world0 =
     Some ((21000192, None), \<lparr>nodeID = 7, lastTimestamp = 5, sequence = 0\<rparr>, \<lparr>ticks = 1, lookups = 0\<rparr>)"
proof -
  let ?g = "\<lparr>nodeID = 7, lastTimestamp = - 1, sequence = 0\<rparr>"
  have l: "lazyNodeID (envOf clockTicking bareHost) ?g world0 = (Inr ?g, world0)"
    by (simp add: lazyNodeID_def)
  show ?thesis
    using NextID_advance [OF l]
    by (simp add: sample_clockTicking clockTicking_def composeID_mult world0_def word_sless_alt)
qed

lemma seven_second:
  "NextID (envOf clockTicking bareHost) \<lparr>nodeID = 7, lastTimestamp = 5, sequence = 0\<rparr>
      \<lparr>ticks = 1, lookups = 0\<rparr> =
     Some ((25194496, None), \<lparr>nodeID = 7, lastTimestamp = 6, sequence = 0\<rparr>, \<lparr>ticks = 2, lookups = 0\<rparr>)"
proof -
  let ?g = "\<lparr>nodeID = 7, lastTimestamp = 5, sequence = 0\<rparr>"
  let ?w = "\<lparr>ticks = 1, lookups = 0\<rparr>"
  have l: "lazyNodeID (envOf clockTicking bareHost) ?g ?w = (Inr ?g, ?w)"
    by (simp add: lazyNodeID_def)
  show ?thesis
    using NextID_advance [OF l]
    by (simp add: sample_clockTicking clockTicking_def composeID_mult word_sless_alt)
qed

lemma bare_first:
  "NextID (envOf clockTwoThree bareHost) New world0 =
     Some ((12582912, None), \<lparr>nodeID = 1024, lastTimestamp = 2, sequence = 0\<rparr>,
           \<lparr>ticks = 1, lookups = 1\<rparr>)"
proof -
  have l: "lazyNodeID (envOf clockTwoThree bareHost) New world0 =
      (Inr \<lparr>nodeID = 1024, lastTimestamp = - 1, sequence = 0\<rparr>, \<lparr>ticks = 0, lookups = 1\<rparr>)"
    by (simp add: lazyNodeID_def New_def world0_def host_envOf createNodeID_bareHost)
  show ?thesis
    using NextID_advance [OF l]
    by (simp add: sample_clockTwoThree clockTwoThree_def composeID_mult word_sless_alt)
qed

lemma bare_second:
  "NextID (envOf clockTwoThree bareHost) \<lparr>nodeID = 1024, lastTimestamp = 2, sequence = 0\<rparr>
      \<lparr>ticks = 1, lookups = 1\<rparr> =
     Some ((12582912, None), \<lparr>nodeID = 1024, lastTimestamp = 3, sequence = 0\<rparr>,
           \<lparr>ticks = 2, lookups = 1\<rparr>)"
proof -
  let ?g = "\<lparr>nodeID = 1024, lastTimestamp = 2, sequence = 0\<rparr>"
  let ?w = "\<lparr>ticks = 1, lookups = 1\<rparr>"
  have l: "lazyNodeID (envOf clockTwoThree bareHost) ?g ?w = (Inr ?g, ?w)"
    by (simp add: lazyNodeID_def)
  show ?thesis
    using NextID_advance [OF l]
    by (simp add: sample_clockTwoThree clockTwoThree_def composeID_mult word_sless_alt)
qed

lemma bare_host_repeats_an_identifier:
  "run (envOf clockTwoThree bareHost) (Suc (Suc 0)) New world0 =
     Some ([(12582912, None), (12582912, None)],
           \<lparr>nodeID = 1024, lastTimestamp = 3, sequence = 0\<rparr>, \<lparr>ticks = 2, lookups = 1\<rparr>)"
  by (simp only: run_two bare_first bare_second option.case prod.case)

section \<open>The claims\<close>

text \<open>
  C1, as the code has it. Take a generator made by \<^verbatim>\<open>New\<close> or \<^verbatim>\<open>NewWithNodeID\<close>, a
  clock that never goes back and whose samples stay below \<open>2 ^ 41\<close>, and, when the node
  identifier is still to be resolved, hosts on which \<^verbatim>\<open>createNodeID\<close> answers within
  \<open>[0, 1023]\<close>. Then the identifiers of the successful calls of any run, in the order
  of the calls, increase strictly as signed numbers; so they are pairwise distinct.
\<close>

theorem issued_ids_increase:
  assumes "g0 = New \<or> NewWithNodeID n = Inr g0"
    and "\<forall>k. sample env k \<le>s sample env (Suc k)"
    and "\<forall>k. sample env k <s 2 ^ 41"
    and "nodeID g0 = 0 \<longrightarrow> (\<forall>k. fst (createNodeID (host env k)) \<le> 1023)"
    and "run env m g0 w = Some (rs, g, w')"
  shows "sorted_wrt (<s) (issued rs) \<and> distinct (issued rs)"
proof -
  from assms(1) have "wellFormed g0"
    using wellFormed_New wellFormed_NewWithNodeID by blast
  from run_sorted [OF assms(2) assms(3) this assms(4) assms(5)]
  have "sorted_wrt (<s) (issued rs)" by simp
  then show ?thesis using sorted_wrt_sless_distinct by blast
qed

theorem issued_ids_increase_witness:
  "(\<forall>k. sample (envOf clockTicking wiredHost) k \<le>s sample (envOf clockTicking wiredHost) (Suc k)) \<and>
   (\<forall>k. sample (envOf clockTicking wiredHost) k <s 2 ^ 41) \<and>
   (\<forall>k. fst (createNodeID (host (envOf clockTicking wiredHost) k)) \<le> 1023) \<and>
   run (envOf clockTicking wiredHost) (Suc (Suc (Suc 0))) New world0 =
     Some ([(23465984, None), (27660288, None), (27660289, None)],
           \<lparr>nodeID = 609, lastTimestamp = 6, sequence = 1\<rparr>, \<lparr>ticks = 3, lookups = 1\<rparr>) \<and>
   sorted_wrt (<s) [23465984, 27660288, 27660289 :: int64] \<and>
   distinct [23465984, 27660288, 27660289 :: int64]"
proof -
  let ?E = "envOf clockTicking wiredHost"
  have a: "New = New \<or> NewWithNodeID 0 = Inr New" by simp
  have b: "\<forall>k. sample ?E k \<le>s sample ?E (Suc k)"
    by (simp add: sample_clockTicking clockTicking_def word_sle_eq)
  have c: "\<forall>k. sample ?E k <s 2 ^ 41"
    by (simp add: sample_clockTicking clockTicking_def word_sless_alt)
  have d: "\<forall>k. fst (createNodeID (host ?E k)) \<le> 1023"
    by (simp add: host_envOf createNodeID_wiredHost)
  then have d': "nodeID New = 0 \<longrightarrow> (\<forall>k. fst (createNodeID (host ?E k)) \<le> 1023)" by simp
  note e = ticking_run
  have f: "sorted_wrt (<s) [23465984, 27660288, 27660289 :: int64] \<and>
           distinct [23465984, 27660288, 27660289 :: int64]"
    using issued_ids_increase [OF a b c d' e] by (simp add: issued_def)
  from b c d e f show ?thesis by blast
qed

text \<open>
  C1 as stated fails when the timestamp leaves the 41 bits of its field: with node
  identifier 1 and a clock that goes from \<open>2 ^ 41 - 1\<close> to \<open>2 ^ 41\<close>, never back, the
  shift by 22 reaches the sign bit and the second identifier is below the first.
\<close>

theorem ids_decrease_at_rollover:
  "NewWithNodeID 1 = Inr \<lparr>nodeID = 1, lastTimestamp = - 1, sequence = 0\<rparr> \<and>
   (\<forall>k. sample (envOf clockRollover wiredHost) k \<le>s sample (envOf clockRollover wiredHost) (Suc k)) \<and>
   run (envOf clockRollover wiredHost) (Suc (Suc 0)) \<lparr>nodeID = 1, lastTimestamp = - 1, sequence = 0\<rparr> world0 =
     Some ([(9223372036850585600, None), (9223372036854779904, None)],
           \<lparr>nodeID = 1, lastTimestamp = 2199023255552, sequence = 0\<rparr>, \<lparr>ticks = 2, lookups = 0\<rparr>) \<and>
   (9223372036854779904 :: int64) <s 9223372036850585600"
proof -
  have a: "NewWithNodeID 1 = Inr \<lparr>nodeID = 1, lastTimestamp = - 1, sequence = 0\<rparr>"
    by (simp add: NewWithNodeID_def maxNodeID_eq word_sless_alt)
  have b: "\<forall>k. sample (envOf clockRollover wiredHost) k \<le>s sample (envOf clockRollover wiredHost) (Suc k)"
    by (simp add: sample_clockRollover clockRollover_def word_sle_eq)
  have c: "run (envOf clockRollover wiredHost) (Suc (Suc 0)) \<lparr>nodeID = 1, lastTimestamp = - 1, sequence = 0\<rparr> world0 =
     Some ([(9223372036850585600, None), (9223372036854779904, None)],
           \<lparr>nodeID = 1, lastTimestamp = 2199023255552, sequence = 0\<rparr>, \<lparr>ticks = 2, lookups = 0\<rparr>)"
    by (simp only: run_two rollover_first rollover_second option.case prod.case)
  have d: "(9223372036854779904 :: int64) <s 9223372036850585600"
    by (simp add: word_sless_alt)
  from a b c d show ?thesis by blast
qed

text \<open>
  C2. When the node identifier is there (set, or resolved in this call) and the clock
  sample is below \<open>lastTimestamp\<close>, \<^verbatim>\<open>NextID\<close> returns \<open>ErrInvalidState\<close> with the
  identifier 0, and \<open>lastTimestamp\<close> and \<open>sequence\<close> are what they were.
\<close>

theorem NextID_clock_regression:
  assumes "lazyNodeID env g w = (Inr g1, w1)"
    and "sample env (ticks w1) <s lastTimestamp g"
  shows "NextID env g w = Some ((0, Some ErrInvalidState), g1, w1\<lparr>ticks := Suc (ticks w1)\<rparr>) \<and>
         lastTimestamp g1 = lastTimestamp g \<and> sequence g1 = sequence g"
  using assms
  by (auto simp: NextID_def lazyNodeID_def timestamp_sample split: if_splits prod.splits option.splits)

theorem NextID_clock_regression_witness:
  "lazyNodeID (envOf clockSteady wiredHost) \<lparr>nodeID = 7, lastTimestamp = 9, sequence = 3\<rparr> world0 =
     (Inr \<lparr>nodeID = 7, lastTimestamp = 9, sequence = 3\<rparr>, world0) \<and>
   sample (envOf clockSteady wiredHost) (ticks world0) <s 9 \<and>
   NextID (envOf clockSteady wiredHost) \<lparr>nodeID = 7, lastTimestamp = 9, sequence = 3\<rparr> world0 =
     Some ((0, Some ErrInvalidState), \<lparr>nodeID = 7, lastTimestamp = 9, sequence = 3\<rparr>,
           \<lparr>ticks = 1, lookups = 0\<rparr>)"
proof -
  let ?g = "\<lparr>nodeID = 7, lastTimestamp = 9, sequence = 3\<rparr>"
  have a: "lazyNodeID (envOf clockSteady wiredHost) ?g world0 = (Inr ?g, world0)"
    by (simp add: lazyNodeID_def)
  have b: "sample (envOf clockSteady wiredHost) (ticks world0) <s lastTimestamp ?g"
    by (simp add: sample_def timestamp_def envOf_def nanosOf_def clockSteady_def customEpoch_def
        word_sless_alt)
  show ?thesis
    using a b NextID_clock_regression [OF a b] by (simp add: world0_def)
qed

text \<open>
  C3. The code at the input where the claim fails: \<^verbatim>\<open>NewWithNodeID\<close> accepts the node
  identifier 0 and returns the generator that \<^verbatim>\<open>New\<close> returns; \<^verbatim>\<open>NextID\<close> finds
  \<^verbatim>\<open>nodeID == 0\<close> and asks \<^verbatim>\<open>createNodeID\<close> (one lookup), and the identifier carries
  the node field 609 of the host, not 0.
\<close>

theorem explicit_zero_is_resolved:
  "NewWithNodeID 0 = Inr New \<and> lookups world0 = 0 \<and>
   NextID (envOf clockTicking wiredHost) New world0 =
     Some ((23465984, None), \<lparr>nodeID = 609, lastTimestamp = 5, sequence = 0\<rparr>,
           \<lparr>ticks = 1, lookups = 1\<rparr>) \<and>
   nodeIDField 23465984 = 609"
proof -
  have a: "NewWithNodeID 0 = Inr New"
    by (simp add: NewWithNodeID_def New_def maxNodeID_eq word_sless_alt)
  have b: "lookups world0 = 0" by (simp add: world0_def)
  have c: "composeID 5 609 0 = 23465984" by (simp add: composeID_mult)
  have d: "nodeIDField 23465984 = 609"
    using nodeIDField_composeID [of 609 0 5] by (simp add: c)
  from a b ticking_first d show ?thesis by blast
qed

text \<open>
  For every other explicit node identifier the generator does what the claim says:
  over any run \<^verbatim>\<open>createNodeID\<close> is never asked, the generator keeps its node
  identifier, and the node field of every identifier issued is that node identifier.
\<close>

theorem explicit_node_id_kept:
  assumes "NewWithNodeID n = Inr g0" and "n \<noteq> 0"
    and "run env m g0 w = Some (rs, g, w')"
  shows "lookups w' = lookups w \<and> nodeID g = n \<and> (\<forall>i\<in>set (issued rs). nodeIDField i = n)"
proof -
  from assms(1) have g0: "nodeID g0 = n" and b: "0 \<le>s n \<and> n \<le>s 1023"
    by (auto simp: NewWithNodeID_def maxNodeID_eq signed.not_less split: if_splits)
  from b have "n \<le> 1023" by (simp add: node_bounds_iff)
  with g0 assms(2) have "nodeID g0 \<noteq> 0" "nodeID g0 \<le> 1023" by simp_all
  from run_keeps_node [OF this assms(3)] g0 show ?thesis by simp
qed

theorem explicit_node_id_kept_witness:
  "NewWithNodeID 7 = Inr \<lparr>nodeID = 7, lastTimestamp = - 1, sequence = 0\<rparr> \<and> (7 :: goint) \<noteq> 0 \<and>
   run (envOf clockTicking bareHost) (Suc (Suc 0)) \<lparr>nodeID = 7, lastTimestamp = - 1, sequence = 0\<rparr> world0 =
     Some ([(21000192, None), (25194496, None)], \<lparr>nodeID = 7, lastTimestamp = 6, sequence = 0\<rparr>,
           \<lparr>ticks = 2, lookups = 0\<rparr>) \<and>
   lookups \<lparr>ticks = 2, lookups = 0\<rparr> = lookups world0 \<and>
   nodeIDField 21000192 = 7 \<and> nodeIDField 25194496 = 7"
proof -
  have a: "NewWithNodeID 7 = Inr \<lparr>nodeID = 7, lastTimestamp = - 1, sequence = 0\<rparr>"
    by (simp add: NewWithNodeID_def maxNodeID_eq word_sless_alt)
  have b: "(7 :: goint) \<noteq> 0" by simp
  have c: "run (envOf clockTicking bareHost) (Suc (Suc 0)) \<lparr>nodeID = 7, lastTimestamp = - 1, sequence = 0\<rparr> world0 =
     Some ([(21000192, None), (25194496, None)], \<lparr>nodeID = 7, lastTimestamp = 6, sequence = 0\<rparr>,
           \<lparr>ticks = 2, lookups = 0\<rparr>)"
    by (simp only: run_two seven_first seven_second option.case prod.case)
  have d: "lookups \<lparr>ticks = 2, lookups = 0\<rparr> = lookups world0 \<and>
      nodeIDField 21000192 = 7 \<and> nodeIDField 25194496 = 7"
    using explicit_node_id_kept [OF a b c] by (simp add: issued_def)
  from a b c d show ?thesis by blast
qed

text \<open>
  C4. The code at the input where the claim fails: on a host whose interfaces have no
  hardware address, \<^verbatim>\<open>createNodeID\<close> returns what \<^verbatim>\<open>rand.Int()\<close> gave, unmasked; with
  1024 that is above \<open>maxNodeID\<close>.
\<close>

theorem fallback_node_id_unmasked:
  "createNodeID bareHost = (1024, None) \<and> maxNodeID <s 1024"
  by (simp add: createNodeID_bareHost maxNodeID_eq word_sless_alt)

text \<open>
  C5. The code at the input where the claim fails: a generator made by \<^verbatim>\<open>New\<close> is within
  bounds; on the host above its first \<^verbatim>\<open>NextID\<close> stores the node identifier 1024, and
  the generator is out of bounds from then on.
\<close>

theorem node_id_leaves_bounds:
  "inBounds New \<and>
   NextID (envOf clockSteady bareHost) New world0 =
     Some ((20971520, None), \<lparr>nodeID = 1024, lastTimestamp = 5, sequence = 0\<rparr>,
           \<lparr>ticks = 1, lookups = 1\<rparr>) \<and>
   \<not> inBounds \<lparr>nodeID = 1024, lastTimestamp = 5, sequence = 0\<rparr>"
proof -
  have a: "inBounds New" by (simp add: inBounds_iff New_def)
  have l: "lazyNodeID (envOf clockSteady bareHost) New world0 =
      (Inr \<lparr>nodeID = 1024, lastTimestamp = - 1, sequence = 0\<rparr>, \<lparr>ticks = 0, lookups = 1\<rparr>)"
    by (simp add: lazyNodeID_def New_def world0_def host_envOf createNodeID_bareHost)
  have b: "NextID (envOf clockSteady bareHost) New world0 =
     Some ((20971520, None), \<lparr>nodeID = 1024, lastTimestamp = 5, sequence = 0\<rparr>,
           \<lparr>ticks = 1, lookups = 1\<rparr>)"
    using NextID_advance [OF l]
    by (simp add: sample_clockSteady composeID_mult word_sless_alt)
  have c: "\<not> inBounds \<lparr>nodeID = 1024, lastTimestamp = 5, sequence = 0\<rparr>"
    by (simp add: inBounds_iff)
  from a b c show ?thesis by blast
qed

text \<open>
  C6, as the code has it. Let the node identifier be there and the clock sample equal
  \<open>lastTimestamp\<close>. If the incremented sequence, taken modulo 4096, is not 0, the call
  returns at once with that sequence and the same timestamp. If it is 0, and the clock
  stays at \<open>lastTimestamp\<close> for \<open>d\<close> more readings and then differs, the call reads
  exactly those \<open>d + 1\<close> samples, adopts the last one and returns an identifier composed
  from it with sequence 0; the sequence field of that identifier is 0; under a clock that
  never goes back the new timestamp is greater than the exhausted one; and when the node
  identifier is at most 1023 and the new timestamp is within \<open>[- 2 ^ 41, 2 ^ 41)\<close>, the
  timestamp field of the identifier is the new timestamp. If the clock stays at
  \<open>lastTimestamp\<close> for ever, the call never returns.
\<close>

theorem sequence_exhaustion:
  assumes l: "lazyNodeID env g w = (Inr g1, w1)"
    and same: "sample env (ticks w1) = lastTimestamp g"
  shows
    "((sequence g + 1) AND maxSequence \<noteq> 0 \<longrightarrow>
        NextID env g w =
          Some ((composeID (lastTimestamp g) (nodeID g1) ((sequence g + 1) AND maxSequence), None),
                g1\<lparr>sequence := (sequence g + 1) AND maxSequence\<rparr>, w1\<lparr>ticks := Suc (ticks w1)\<rparr>)) \<and>
     ((sequence g + 1) AND maxSequence = 0 \<and>
      (\<forall>j<d. sample env (Suc (ticks w1) + j) = lastTimestamp g) \<and>
      sample env (Suc (ticks w1) + d) \<noteq> lastTimestamp g \<longrightarrow>
        NextID env g w =
          Some ((composeID (sample env (Suc (ticks w1) + d)) (nodeID g1) 0, None),
                g1\<lparr>sequence := 0, lastTimestamp := sample env (Suc (ticks w1) + d)\<rparr>,
                w1\<lparr>ticks := Suc (Suc (ticks w1) + d)\<rparr>) \<and>
        sequenceField (composeID (sample env (Suc (ticks w1) + d)) (nodeID g1) 0) = 0 \<and>
        ((\<forall>k. sample env k \<le>s sample env (Suc k)) \<longrightarrow>
           lastTimestamp g <s sample env (Suc (ticks w1) + d)) \<and>
        (nodeID g1 \<le> 1023 \<and> - (2 ^ 41) \<le>s sample env (Suc (ticks w1) + d) \<and>
         sample env (Suc (ticks w1) + d) <s 2 ^ 41 \<longrightarrow>
           timestampField (composeID (sample env (Suc (ticks w1) + d)) (nodeID g1) 0) =
             sample env (Suc (ticks w1) + d))) \<and>
     ((sequence g + 1) AND maxSequence = 0 \<and>
      (\<forall>j. sample env (Suc (ticks w1) + j) = lastTimestamp g) \<longrightarrow>
        NextID env g w = None)"
proof -
  note k = lazyNodeID_keeps(1,2) [OF l]
  have same1: "sample env (ticks w1) = lastTimestamp g1" using same k by simp
  let ?g2 = "g1\<lparr>sequence := 0\<rparr>"
  let ?w2 = "w1\<lparr>ticks := Suc (ticks w1)\<rparr>"
  let ?t = "sample env (Suc (ticks w1) + d)"
  have A: "NextID env g w =
          Some ((composeID (lastTimestamp g) (nodeID g1) ((sequence g + 1) AND maxSequence), None),
                g1\<lparr>sequence := (sequence g + 1) AND maxSequence\<rparr>, w1\<lparr>ticks := Suc (ticks w1)\<rparr>)"
    if nz: "(sequence g + 1) AND maxSequence \<noteq> 0"
  proof -
    from nz k have "(sequence g1 + 1) AND maxSequence \<noteq> 0" by simp
    from NextID_same [OF l same1 this] k show ?thesis by simp
  qed
  have B1: "NextID env g w =
          Some ((composeID ?t (nodeID g1) 0, None), g1\<lparr>sequence := 0, lastTimestamp := ?t\<rparr>,
                w1\<lparr>ticks := Suc (Suc (ticks w1) + d)\<rparr>)"
    if z: "(sequence g + 1) AND maxSequence = 0"
      and stay: "\<forall>j<d. sample env (Suc (ticks w1) + j) = lastTimestamp g"
      and move: "?t \<noteq> lastTimestamp g"
  proof -
    from z k have z1: "(sequence g1 + 1) AND maxSequence = 0" by simp
    have m: "sample env (ticks ?w2 + d) \<noteq> lastTimestamp ?g2" using move k by simp
    have s: "\<forall>j<d. sample env (ticks ?w2 + j) = lastTimestamp ?g2" using stay k by simp
    from blockWait_returns [OF m s]
    have "blockWaitToNextMillisecond env ?g2 (lastTimestamp g1) ?w2 =
          Some (?t, w1\<lparr>ticks := Suc (Suc (ticks w1) + d)\<rparr>)"
      by simp
    with NextID_wrap [OF l same1 z1] show ?thesis by simp
  qed
  have B2: "sequenceField (composeID ?t (nodeID g1) 0) = 0"
    by (rule sequenceField_composeID) simp
  have B3: "lastTimestamp g <s ?t"
    if mono: "\<forall>k. sample env k \<le>s sample env (Suc k)" and move: "?t \<noteq> lastTimestamp g"
  proof -
    have "ticks w1 \<le> Suc (ticks w1) + d" by simp
    then have "sample env (ticks w1) \<le>s ?t" by (rule sample_mono [OF mono])
    with same move show ?thesis by (auto simp: signed.le_less)
  qed
  have B4: "timestampField (composeID ?t (nodeID g1) 0) = ?t"
    if "nodeID g1 \<le> 1023" and "- (2 ^ 41) \<le>s ?t" and "?t <s 2 ^ 41"
    using that(1) _ sint_bounds_41 [OF that(2,3)] by (rule timestampField_composeID) simp
  have C: "NextID env g w = None"
    if z: "(sequence g + 1) AND maxSequence = 0"
      and stay: "\<forall>j. sample env (Suc (ticks w1) + j) = lastTimestamp g"
  proof -
    from z k have z1: "(sequence g1 + 1) AND maxSequence = 0" by simp
    have "\<forall>j\<ge>ticks ?w2. sample env j = lastTimestamp ?g2"
    proof (intro allI impI)
      fix j assume "ticks ?w2 \<le> j"
      then have j: "j = Suc (ticks w1) + (j - Suc (ticks w1))" by simp
      from stay have "sample env (Suc (ticks w1) + (j - Suc (ticks w1))) = lastTimestamp g" by blast
      with j have "sample env j = lastTimestamp g" by simp
      with k show "sample env j = lastTimestamp ?g2" by simp
    qed
    from blockWait_never [OF this] NextID_wrap [OF l same1 z1] show ?thesis by simp
  qed
  have P1: "(sequence g + 1) AND maxSequence \<noteq> 0 \<longrightarrow>
        NextID env g w =
          Some ((composeID (lastTimestamp g) (nodeID g1) ((sequence g + 1) AND maxSequence), None),
                g1\<lparr>sequence := (sequence g + 1) AND maxSequence\<rparr>, w1\<lparr>ticks := Suc (ticks w1)\<rparr>)"
    using A by (rule impI)
  have P2: "(sequence g + 1) AND maxSequence = 0 \<and>
      (\<forall>j<d. sample env (Suc (ticks w1) + j) = lastTimestamp g) \<and>
      ?t \<noteq> lastTimestamp g \<longrightarrow>
        NextID env g w =
          Some ((composeID ?t (nodeID g1) 0, None), g1\<lparr>sequence := 0, lastTimestamp := ?t\<rparr>,
                w1\<lparr>ticks := Suc (Suc (ticks w1) + d)\<rparr>) \<and>
        sequenceField (composeID ?t (nodeID g1) 0) = 0 \<and>
        ((\<forall>k. sample env k \<le>s sample env (Suc k)) \<longrightarrow> lastTimestamp g <s ?t) \<and>
        (nodeID g1 \<le> 1023 \<and> - (2 ^ 41) \<le>s ?t \<and> ?t <s 2 ^ 41 \<longrightarrow>
           timestampField (composeID ?t (nodeID g1) 0) = ?t)"
  proof (rule impI, elim conjE)
    assume z: "(sequence g + 1) AND maxSequence = 0"
      and stay: "\<forall>j<d. sample env (Suc (ticks w1) + j) = lastTimestamp g"
      and move: "?t \<noteq> lastTimestamp g"
    note B1 [OF z stay move]
    moreover note B2
    moreover have "(\<forall>k. sample env k \<le>s sample env (Suc k)) \<longrightarrow> lastTimestamp g <s ?t"
      using B3 move by blast
    moreover have "nodeID g1 \<le> 1023 \<and> - (2 ^ 41) \<le>s ?t \<and> ?t <s 2 ^ 41 \<longrightarrow>
           timestampField (composeID ?t (nodeID g1) 0) = ?t"
      using B4 by blast
    ultimately show "NextID env g w =
          Some ((composeID ?t (nodeID g1) 0, None), g1\<lparr>sequence := 0, lastTimestamp := ?t\<rparr>,
                w1\<lparr>ticks := Suc (Suc (ticks w1) + d)\<rparr>) \<and>
        sequenceField (composeID ?t (nodeID g1) 0) = 0 \<and>
        ((\<forall>k. sample env k \<le>s sample env (Suc k)) \<longrightarrow> lastTimestamp g <s ?t) \<and>
        (nodeID g1 \<le> 1023 \<and> - (2 ^ 41) \<le>s ?t \<and> ?t <s 2 ^ 41 \<longrightarrow>
           timestampField (composeID ?t (nodeID g1) 0) = ?t)"
      by (intro conjI)
  qed
  have P3: "(sequence g + 1) AND maxSequence = 0 \<and>
      (\<forall>j. sample env (Suc (ticks w1) + j) = lastTimestamp g) \<longrightarrow>
        NextID env g w = None"
    using C by blast
  from P1 P2 P3 show ?thesis by (intro conjI)
qed

theorem sequence_exhaustion_witness:
  "lazyNodeID (envOf clockStall wiredHost) \<lparr>nodeID = 7, lastTimestamp = 5, sequence = 4095\<rparr> world0 =
     (Inr \<lparr>nodeID = 7, lastTimestamp = 5, sequence = 4095\<rparr>, world0) \<and>
   sample (envOf clockStall wiredHost) 0 = 5 \<and>
   (4095 + 1) AND maxSequence = 0 \<and>
   sample (envOf clockStall wiredHost) 1 = 5 \<and>
   sample (envOf clockStall wiredHost) 2 = 5 \<and>
   sample (envOf clockStall wiredHost) 3 = 6 \<and>
   NextID (envOf clockStall wiredHost) \<lparr>nodeID = 7, lastTimestamp = 5, sequence = 4095\<rparr> world0 =
     Some ((25194496, None), \<lparr>nodeID = 7, lastTimestamp = 6, sequence = 0\<rparr>, \<lparr>ticks = 4, lookups = 0\<rparr>) \<and>
   sequenceField 25194496 = 0 \<and> timestampField 25194496 = 6"
proof -
  let ?E = "envOf clockStall wiredHost"
  let ?g = "\<lparr>nodeID = 7, lastTimestamp = 5, sequence = 4095\<rparr>"
  have l: "lazyNodeID ?E ?g world0 = (Inr ?g, world0)"
    by (simp add: lazyNodeID_def)
  have s0: "sample ?E (ticks world0) = lastTimestamp ?g"
    by (simp add: sample_clockStall clockStall_def world0_def)
  have z: "(sequence ?g + 1) AND maxSequence = 0"
    by (simp add: maxSequence_eq)
  have stay: "\<forall>j<2. sample ?E (Suc (ticks world0) + j) = lastTimestamp ?g"
    by (simp add: sample_clockStall clockStall_def world0_def)
  have move: "sample ?E (Suc (ticks world0) + 2) \<noteq> lastTimestamp ?g"
    by (simp add: sample_clockStall clockStall_def world0_def)
  have c: "composeID 6 7 0 = 25194496"
    by (simp add: composeID_mult)
  have r: "nodeID ?g \<le> 1023 \<and> - (2 ^ 41) \<le>s sample ?E (Suc (ticks world0) + 2) \<and>
      sample ?E (Suc (ticks world0) + 2) <s 2 ^ 41"
    by (simp add: sample_clockStall clockStall_def world0_def word_sle_eq word_sless_alt)
  from sequence_exhaustion [OF l s0, of 2] z stay move r
  have "NextID ?E ?g world0 =
          Some ((composeID (sample ?E (Suc (ticks world0) + 2)) (nodeID ?g) 0, None),
                ?g\<lparr>sequence := 0, lastTimestamp := sample ?E (Suc (ticks world0) + 2)\<rparr>,
                world0\<lparr>ticks := Suc (Suc (ticks world0) + 2)\<rparr>) \<and>
        sequenceField (composeID (sample ?E (Suc (ticks world0) + 2)) (nodeID ?g) 0) = 0 \<and>
        timestampField (composeID (sample ?E (Suc (ticks world0) + 2)) (nodeID ?g) 0) =
             sample ?E (Suc (ticks world0) + 2)"
    by blast
  then have n: "NextID ?E ?g world0 =
     Some ((25194496, None), \<lparr>nodeID = 7, lastTimestamp = 6, sequence = 0\<rparr>, \<lparr>ticks = 4, lookups = 0\<rparr>) \<and>
     sequenceField 25194496 = 0 \<and> timestampField 25194496 = 6"
    by (simp add: sample_clockStall clockStall_def world0_def c)
  have s: "sample ?E 0 = 5" "sample ?E 1 = 5" "sample ?E 2 = 5" "sample ?E 3 = 6"
    by (simp_all add: sample_clockStall clockStall_def)
  have z': "((4095 :: int64) + 1) AND maxSequence = 0" by (simp add: maxSequence_eq)
  from l s z' n show ?thesis by blast
qed

text \<open>
  C6 as stated fails when the new timestamp leaves the 41 bits of its field. The
  generator with node identifier 1 issues sequence 0 of millisecond 5 in its first call
  and has exhausted that millisecond after 4096 calls; the clock, which never goes back,
  then jumps to \<open>5 + 2 ^ 42\<close>; the 4097th call adopts that timestamp, and the shift by 22
  drops the high bit: its identifier has the timestamp field 5 again, and is the very
  identifier of the first call.
\<close>

theorem timestamp_field_repeats_at_overflow:
  "(\<forall>k. sample (envOf clockLong wiredHost) k \<le>s sample (envOf clockLong wiredHost) (Suc k)) \<and>
   NextID (envOf clockLong wiredHost) \<lparr>nodeID = 1, lastTimestamp = - 1, sequence = 0\<rparr> world0 =
     Some ((20975616, None), \<lparr>nodeID = 1, lastTimestamp = 5, sequence = 0\<rparr>, \<lparr>ticks = 1, lookups = 0\<rparr>) \<and>
   map_option snd
     (run (envOf clockLong wiredHost) 4096 \<lparr>nodeID = 1, lastTimestamp = - 1, sequence = 0\<rparr> world0) =
     Some (\<lparr>nodeID = 1, lastTimestamp = 5, sequence = 4095\<rparr>, \<lparr>ticks = 4096, lookups = 0\<rparr>) \<and>
   sample (envOf clockLong wiredHost) 4096 = 5 \<and>
   NextID (envOf clockLong wiredHost) \<lparr>nodeID = 1, lastTimestamp = 5, sequence = 4095\<rparr>
       \<lparr>ticks = 4096, lookups = 0\<rparr> =
     Some ((20975616, None), \<lparr>nodeID = 1, lastTimestamp = 4398046511109, sequence = 0\<rparr>,
           \<lparr>ticks = 4098, lookups = 0\<rparr>) \<and>
   timestampField 20975616 = 5 \<and> sequenceField 20975616 = 0"
proof -
  have a: "\<forall>k. sample (envOf clockLong wiredHost) k \<le>s sample (envOf clockLong wiredHost) (Suc k)"
    by (simp add: sample_clockLong clockLong_def word_sle_eq)
  have b: "sample (envOf clockLong wiredHost) 4096 = 5"
    by (simp add: sample_clockLong clockLong_def)
  have c: "composeID 5 1 0 = 20975616" by (simp add: composeID_mult)
  have d: "timestampField 20975616 = 5"
    using timestampField_composeID [of 1 0 5] by (simp add: c)
  have e: "sequenceField 20975616 = 0"
    using sequenceField_composeID [of 0 5 1] by (simp add: c)
  from a long_first long_exhausts b long_exhausted d e show ?thesis by blast
qed

text \<open>
  C7. The identifier of a successful call is the timestamp shifted left by
  \<open>nodeIDBits + sequenceBits = 22\<close>, or-ed with the node identifier shifted left by
  \<open>sequenceBits = 12\<close>, or-ed with the sequence, the three read from the generator as the
  call leaves it; that timestamp is the clock sample the call read last.
\<close>

theorem NextID_composes:
  assumes "NextID env g w = Some ((i, None), g', w')"
  shows "i = (push_bit (nodeIDBits + sequenceBits) (lastTimestamp g')
               OR push_bit sequenceBits (nodeID g')) OR sequence g' \<and>
         nodeIDBits + sequenceBits = 22 \<and> sequenceBits = 12 \<and>
         ticks w < ticks w' \<and> lastTimestamp g' = sample env (ticks w' - 1)"
  using NextID_success_fields [OF assms]
  by (simp add: composeID_def nodeIDBits_def sequenceBits_def)

theorem NextID_composes_witness:
  "NextID (envOf clockSteady wiredHost) \<lparr>nodeID = 7, lastTimestamp = - 1, sequence = 0\<rparr> world0 =
     Some ((21000192, None), \<lparr>nodeID = 7, lastTimestamp = 5, sequence = 0\<rparr>, \<lparr>ticks = 1, lookups = 0\<rparr>) \<and>
   (21000192 :: int64) = (push_bit 22 5 OR push_bit 12 7) OR 0"
proof -
  let ?g = "\<lparr>nodeID = 7, lastTimestamp = - 1, sequence = 0\<rparr>"
  have l: "lazyNodeID (envOf clockSteady wiredHost) ?g world0 = (Inr ?g, world0)"
    by (simp add: lazyNodeID_def)
  have a: "NextID (envOf clockSteady wiredHost) ?g world0 =
     Some ((21000192, None), \<lparr>nodeID = 7, lastTimestamp = 5, sequence = 0\<rparr>, \<lparr>ticks = 1, lookups = 0\<rparr>)"
    using NextID_advance [OF l]
    by (simp add: sample_clockSteady composeID_mult world0_def word_sless_alt)
  have b: "(21000192 :: int64) = (push_bit 22 5 OR push_bit 12 7) OR 0"
    using NextID_composes [OF a] by (simp add: nodeIDBits_def sequenceBits_def)
  from a b show ?thesis by (rule conjI)
qed

text \<open>
  C8. For a timestamp in \<open>[0, 2 ^ 41)\<close>, a node identifier in \<open>[0, 1023]\<close> and a sequence
  in \<open>[0, 4095]\<close>, the inverse shifts \<^verbatim>\<open>id >> 22\<close>, \<^verbatim>\<open>(id >> 12) & 1023\<close> and
  \<^verbatim>\<open>id & 4095\<close> give the three back, and the identifier is not negative. For an
  identifier that \<^verbatim>\<open>NextID\<close> returns while timestamp and node identifier of the
  generator are in these ranges (its sequence always is), they give back
  \<open>lastTimestamp\<close>, \<open>nodeID\<close> and \<open>sequence\<close> as the call leaves them.
\<close>

theorem fields_roundtrip:
  "(0 \<le>s t \<and> t <s 2 ^ 41 \<and> 0 \<le>s n \<and> n \<le>s 1023 \<and> 0 \<le>s s \<and> s \<le>s 4095 \<longrightarrow>
      decomposeID (composeID t n s) = (t, n, s) \<and> 0 \<le>s composeID t n s) \<and>
   (NextID env g w = Some ((i, None), g', w') \<and>
    0 \<le>s lastTimestamp g' \<and> lastTimestamp g' <s 2 ^ 41 \<and> 0 \<le>s nodeID g' \<and> nodeID g' \<le>s 1023 \<longrightarrow>
      decomposeID i = (lastTimestamp g', nodeID g', sequence g') \<and> 0 \<le>s i)"
proof (intro conjI impI)
  assume a: "0 \<le>s t \<and> t <s 2 ^ 41 \<and> 0 \<le>s n \<and> n \<le>s 1023 \<and> 0 \<le>s s \<and> s \<le>s 4095"
  then show "decomposeID (composeID t n s) = (t, n, s)" by (simp add: composeID_roundtrip)
  from a show "0 \<le>s composeID t n s" by (simp add: composeID_roundtrip)
next
  assume a: "NextID env g w = Some ((i, None), g', w') \<and>
    0 \<le>s lastTimestamp g' \<and> lastTimestamp g' <s 2 ^ 41 \<and> 0 \<le>s nodeID g' \<and> nodeID g' \<le>s 1023"
  then have call: "NextID env g w = Some ((i, None), g', w')" by simp
  from NextID_success_fields [OF call]
  have s: "sequence g' \<le> 4095" and i: "i = composeID (lastTimestamp g') (nodeID g') (sequence g')"
    by simp_all
  from s have s': "0 \<le>s sequence g' \<and> sequence g' \<le>s 4095" by (simp add: seq_bounds_iff)
  from a s' show "decomposeID i = (lastTimestamp g', nodeID g', sequence g')"
    unfolding i by (simp add: composeID_roundtrip)
  from a s' show "0 \<le>s i"
    unfolding i by (simp add: composeID_roundtrip)
qed

theorem fields_roundtrip_witness:
  "(0 :: int64) \<le>s 5 \<and> (5 :: int64) <s 2 ^ 41 \<and> (0 :: goint) \<le>s 7 \<and> (7 :: goint) \<le>s 1023 \<and>
   (0 :: int64) \<le>s 3 \<and> (3 :: int64) \<le>s 4095 \<and>
   decomposeID (composeID 5 7 3) = (5, 7, 3) \<and> 0 \<le>s composeID 5 7 3 \<and>
   NextID (envOf clockSteady wiredHost) \<lparr>nodeID = 7, lastTimestamp = - 1, sequence = 0\<rparr> world0 =
     Some ((21000192, None), \<lparr>nodeID = 7, lastTimestamp = 5, sequence = 0\<rparr>, \<lparr>ticks = 1, lookups = 0\<rparr>) \<and>
   decomposeID 21000192 = (5, 7, 0) \<and> (0 :: int64) \<le>s 21000192"
proof -
  let ?g = "\<lparr>nodeID = 7, lastTimestamp = - 1, sequence = 0\<rparr>"
  let ?g' = "\<lparr>nodeID = 7, lastTimestamp = 5, sequence = 0\<rparr>"
  let ?w' = "\<lparr>ticks = 1, lookups = 0\<rparr>"
  have r: "(0 :: int64) \<le>s 5 \<and> (5 :: int64) <s 2 ^ 41 \<and> (0 :: goint) \<le>s 7 \<and> (7 :: goint) \<le>s 1023 \<and>
   (0 :: int64) \<le>s 3 \<and> (3 :: int64) \<le>s 4095"
    by (simp add: word_sle_eq word_sless_alt)
  have l: "lazyNodeID (envOf clockSteady wiredHost) ?g world0 = (Inr ?g, world0)"
    by (simp add: lazyNodeID_def)
  have a: "NextID (envOf clockSteady wiredHost) ?g world0 = Some ((21000192, None), ?g', ?w')"
    using NextID_advance [OF l]
    by (simp add: sample_clockSteady composeID_mult world0_def word_sless_alt)
  have b: "0 \<le>s lastTimestamp ?g' \<and> lastTimestamp ?g' <s 2 ^ 41 \<and> 0 \<le>s nodeID ?g' \<and> nodeID ?g' \<le>s 1023"
    by (simp add: word_sle_eq word_sless_alt)
  note th = fields_roundtrip [of 5 7 3 "envOf clockSteady wiredHost" ?g world0 21000192 ?g' ?w']
  from th r have c: "decomposeID (composeID 5 7 3) = (5, 7, 3) \<and> 0 \<le>s composeID 5 7 3" by blast
  from th a b have "decomposeID 21000192 = (lastTimestamp ?g', nodeID ?g', sequence ?g') \<and> (0 :: int64) \<le>s 21000192"
    by blast
  then have d: "decomposeID 21000192 = (5, 7, 0) \<and> (0 :: int64) \<le>s 21000192" by simp
  from r c a d show ?thesis by blast
qed

text \<open>
  C9. Construction with an explicit node identifier fails with \<open>ErrOutOfBoundNodeID\<close>
  exactly when the identifier is negative or greater than 1023; otherwise it yields a
  generator with that node identifier that has issued nothing yet. So 1024 and \<open>-1\<close> are
  refused, 0 and 1023 accepted.
\<close>

theorem NewWithNodeID_bounds:
  "(NewWithNodeID n = Inl ErrOutOfBoundNodeID \<longleftrightarrow> (n <s 0 \<or> 1023 <s n)) \<and>
   (NewWithNodeID n = Inr \<lparr>nodeID = n, lastTimestamp = - 1, sequence = 0\<rparr>
      \<longleftrightarrow> (0 \<le>s n \<and> n \<le>s 1023)) \<and>
   NewWithNodeID 1024 = Inl ErrOutOfBoundNodeID \<and>
   NewWithNodeID (- 1) = Inl ErrOutOfBoundNodeID \<and>
   NewWithNodeID 0 = Inr \<lparr>nodeID = 0, lastTimestamp = - 1, sequence = 0\<rparr> \<and>
   NewWithNodeID 1023 = Inr \<lparr>nodeID = 1023, lastTimestamp = - 1, sequence = 0\<rparr>"
  by (auto simp: NewWithNodeID_def maxNodeID_eq word_sless_alt word_sle_eq)

text \<open>
  C10. When the generator has no node identifier yet and \<^verbatim>\<open>createNodeID\<close> returns an
  error, \<^verbatim>\<open>NextID\<close> returns the identifier 0 with that error; the generator is the one
  before the call, and the clock has not been read.
\<close>

theorem NextID_provider_error:
  assumes "nodeID g = 0" and "createNodeID (host env (lookups w)) = (n, Some err)"
  shows "NextID env g w = Some ((0, Some err), g, w\<lparr>lookups := Suc (lookups w)\<rparr>)"
  using assms by (simp add: NextID_def lazyNodeID_def)

theorem NextID_provider_error_witness:
  "nodeID New = 0 \<and>
   createNodeID (host (envOf clockSteady brokenHost) (lookups world0)) =
     (0, Some (ErrInterfaces ''netlinkrib: permission denied'')) \<and>
   NextID (envOf clockSteady brokenHost) New world0 =
     Some ((0, Some (ErrInterfaces ''netlinkrib: permission denied'')), New, \<lparr>ticks = 0, lookups = 1\<rparr>)"
proof -
  have a: "nodeID New = 0" by (simp add: New_def)
  have b: "createNodeID (host (envOf clockSteady brokenHost) (lookups world0)) =
     (0, Some (ErrInterfaces ''netlinkrib: permission denied''))"
    by (simp add: createNodeID_def envOf_def brokenHost_def)
  show ?thesis
    using a b NextID_provider_error [OF a b] by (simp add: world0_def)
qed

end
